theory Spec2Isabelle
  imports Main
begin

section \<open>Values, parser objects and errors\<close>

text \<open>
  The values a template evaluates to are Python's: unicode strings, \<open>VarReference\<close>
  objects, \<open>None\<close>, ordered dictionaries and lists. A list remembers its class
  (\<open>list\<close>, \<open>UncollapsibleList\<close> or \<open>VarsStringsList\<close>), since
  \<open>normalize_content\<close> tests for it. A string is a list of code points below 256.

  The objects of \<open>string_parser.py\<close> are mutable and shared: a function object is
  appended to a bucket of the frame under it and, when it opens a block, pushed on the stack
  as well. The model keeps the \<open>Function\<close> objects in a store, a list indexed by
  address in the order of their creation, and the stack and the buckets hold addresses.
  The root \<open>StringParserStackItem\<close> of a stack is the only object that is not a
  function; only one is alive at a time, and its contents are a field of the parser state.

  A function object that ends up in a parameter list stays unserialized in the output
  (\<open>self.params + norm_contents\<close>): \<open>Raw\<close> is such an object, with the store of
  the parameter's own parse.
\<close>

datatype list_kind = PyList | UncollapsibleList | VarsStringsList

datatype okind = BlockFunction | IfBlockFunction | ElseBlockFunction

datatype bucket = IfTrue | IfFalse

datatype citem = CStr string | CRef string | CVar string | CObj nat

datatype "value" =
    Str string
  | VarReference string
  | NoneV
  | Dict "(string \<times> value) list"
  | List list_kind "value list"
  | Raw "obj list" nat
and obj =
  Obj (kind: okind) (func_name: string) (params: "value list") (contents: "citem list")
      (pop_count: nat) (is_elseif: bool)
      (if_true_content: "citem list") (if_false_content: "citem list") (cur_content: bucket)

datatype error =
    IndexError
  | KeyError
  | AttributeError
  | TypeError
  | ConstructorError string
  | BadAddress

text \<open>
  The resolution state (\<open>cloudformer.templates.state\<close>) is not among the sources.
  The parser calls two of its methods, which are parameters of the model:
  \<open>norm_vars xs\<close> is
  \<open>normalize_vars_list(process_tree(xs, resolve_variables=False))\<close>, a list with
  its class, and \<open>collapse_variables\<close> is the method of that name.
\<close>

record template_state =
  norm_vars :: "value list \<Rightarrow> list_kind \<times> value list"
  collapse_variables :: "value list \<Rightarrow> value"

fun sequenceE :: "('e + 'a) list \<Rightarrow> 'e + 'a list" where
  "sequenceE [] = Inr []"
| "sequenceE (m # ms) =
     (case m of Inl e \<Rightarrow> Inl e
      | Inr x \<Rightarrow> (case sequenceE ms of Inl e \<Rightarrow> Inl e | Inr xs \<Rightarrow> Inr (x # xs)))"

section \<open>The regular expression PARSE\_STR\_RE\<close>

text \<open>
  The module is Python 2 code (\<open>unicode_literals\<close>, \<open>six\<close>): without the
  \<open>UNICODE\<close> flag, \<open>\s\<close> is \<open>[ \t\n\r\f\v]\<close>. No alternative of the
  expression gains anything by backtracking (a character that ends a greedy run never starts
  what follows the run), so each is matched by one pass from left to right.
\<close>

definition is_space :: "char \<Rightarrow> bool" where
  "is_space c = (c \<in> set [CHR '' '', CHR 0x09, CHR 0x0A, CHR 0x0B, CHR 0x0C, CHR 0x0D])"

definition is_upper :: "char \<Rightarrow> bool" where
  "is_upper c = (65 \<le> (of_char c :: nat) \<and> (of_char c :: nat) \<le> 90)"

definition is_lower :: "char \<Rightarrow> bool" where
  "is_lower c = (97 \<le> (of_char c :: nat) \<and> (of_char c :: nat) \<le> 122)"

definition is_digit :: "char \<Rightarrow> bool" where
  "is_digit c = (48 \<le> (of_char c :: nat) \<and> (of_char c :: nat) \<le> 57)"

definition is_alpha :: "char \<Rightarrow> bool" where
  "is_alpha c = (is_upper c \<or> is_lower c)"

definition is_ref_char :: "char \<Rightarrow> bool" where
  "is_ref_char c = (is_alpha c \<or> is_digit c \<or> c = CHR '':'' \<or> c = CHR ''_'')"

definition is_var_char :: "char \<Rightarrow> bool" where
  "is_var_char c = (is_alpha c \<or> is_digit c \<or> c = CHR ''_'')"

definition is_path_char :: "char \<Rightarrow> bool" where
  "is_path_char c = (is_var_char c \<or> c = CHR ''.'')"

datatype tok =
    TFunc string "string option" bool
  | TClose
  | TRef string
  | TVar string

text \<open>
  A matcher reads a suffix of the line and returns the token with the number of
  characters of the match. \<open>match_tail\<close> is the end \<open>\s*%>\n?\<close> of both
  \<open><% ... %>\<close> alternatives; its argument \<open>n\<close> is what was read before.
\<close>

definition match_tail :: "nat \<Rightarrow> string \<Rightarrow> nat option" where
  "match_tail n s =
     (let ws = takeWhile is_space s in
      case dropWhile is_space s of
        a # b # r \<Rightarrow>
          if a = CHR ''%'' \<and> b = CHR ''>''
          then Some (n + length ws + 2 + (case r of c # _ \<Rightarrow> if c = CHR 0x0A then 1 else 0 | [] \<Rightarrow> 0))
          else None
      | _ \<Rightarrow> None)"

definition match_params :: "string \<Rightarrow> (string option \<times> nat \<times> string) option" where
  "match_params s =
     (case s of
        [] \<Rightarrow> Some (None, 0, s)
      | c # r \<Rightarrow>
          if c = CHR ''(''
          then (let p = takeWhile (\<lambda>x. x \<noteq> CHR '')'') r;
                    r' = dropWhile (\<lambda>x. x \<noteq> CHR '')'') r
                in if p = [] \<or> r' = [] then None else Some (Some p, length p + 2, tl r'))
          else Some (None, 0, s))"

definition match_func :: "string \<Rightarrow> (tok \<times> nat) option" where
  "match_func s =
     (case s of
        a # b # r0 \<Rightarrow>
          if a = CHR ''<'' \<and> b = CHR ''%''
          then (let ws1 = takeWhile is_space r0; r1 = dropWhile is_space r0;
                    name = takeWhile is_alpha r1; r2 = dropWhile is_alpha r1;
                    ws2 = takeWhile is_space r2; r3 = dropWhile is_space r2
                in if name = [] then None
                   else (case match_params r3 of
                           None \<Rightarrow> None
                         | Some (ps, np, r4) \<Rightarrow>
                             (let ws3 = takeWhile is_space r4; r5 = dropWhile is_space r4;
                                  n = 2 + length ws1 + length name + length ws2 + np + length ws3
                              in case r5 of
                                   c # r6 \<Rightarrow>
                                     if c = CHR ''{''
                                     then map_option (Pair (TFunc name ps True)) (match_tail (n + 1) r6)
                                     else map_option (Pair (TFunc name ps False)) (match_tail n r5)
                                 | [] \<Rightarrow> None)))
          else None
      | _ \<Rightarrow> None)"

definition match_close :: "string \<Rightarrow> (tok \<times> nat) option" where
  "match_close s =
     (case s of
        a # b # r0 \<Rightarrow>
          if a = CHR ''<'' \<and> b = CHR ''%''
          then (case dropWhile is_space r0 of
                  c # r1 \<Rightarrow>
                    if c = CHR ''}''
                    then map_option (Pair TClose)
                           (match_tail (2 + length (takeWhile is_space r0) + 1) r1)
                    else None
                | [] \<Rightarrow> None)
          else None
      | _ \<Rightarrow> None)"

definition match_ref :: "string \<Rightarrow> (tok \<times> nat) option" where
  "match_ref s =
     (case s of
        a # b # r0 \<Rightarrow>
          if a = CHR ''@'' \<and> b = CHR ''@''
          then (case r0 of
                  c # r1 \<Rightarrow>
                    if c = CHR ''{''
                    then (let name = takeWhile is_ref_char r1
                          in case dropWhile is_ref_char r1 of
                               d # _ \<Rightarrow>
                                 if name \<noteq> [] \<and> d = CHR ''}''
                                 then Some (TRef name, 2 + 1 + length name + 1)
                                 else None
                             | [] \<Rightarrow> None)
                    else (let name = takeWhile is_ref_char r0
                          in if name = [] then None else Some (TRef name, 2 + length name))
                | [] \<Rightarrow> None)
          else None
      | _ \<Rightarrow> None)"

definition match_var :: "string \<Rightarrow> (tok \<times> nat) option" where
  "match_var s =
     (case s of
        a # b # r0 \<Rightarrow>
          if a = CHR ''$'' \<and> b = CHR ''$''
          then (let name = takeWhile is_var_char r0
                in if name \<noteq> [] then Some (TVar name, 2 + length name)
                   else (case r0 of
                           c # r1 \<Rightarrow>
                             if c = CHR ''{''
                             then (let path = takeWhile is_path_char r1
                                   in case dropWhile is_path_char r1 of
                                        d # _ \<Rightarrow>
                                          if path \<noteq> [] \<and> d = CHR ''}''
                                          then Some (TVar path, 2 + 1 + length path + 1)
                                          else None
                                      | [] \<Rightarrow> None)
                             else None
                         | [] \<Rightarrow> None))
          else None
      | _ \<Rightarrow> None)"

text \<open>The alternatives in the order of the expression: the first that matches wins.\<close>

definition match_at :: "string \<Rightarrow> (tok \<times> nat) option" where
  "match_at s =
     (case match_func s of Some m \<Rightarrow> Some m
      | None \<Rightarrow> (case match_close s of Some m \<Rightarrow> Some m
      | None \<Rightarrow> (case match_ref s of Some m \<Rightarrow> Some m
      | None \<Rightarrow> match_var s)))"

record rmatch =
  m_start :: nat
  m_end :: nat
  m_tok :: tok

text \<open>
  \<open>finditer\<close>: the matches of a line from left to right, none overlapping. The scan
  carries the position and the number of characters still covered by the last match; at a
  character that no match covers it tries the expression.
\<close>

fun scan :: "nat \<Rightarrow> nat \<Rightarrow> string \<Rightarrow> rmatch list" where
  "scan covered pos [] = []"
| "scan (Suc k) pos (c # cs) = scan k (Suc pos) cs"
| "scan 0 pos (c # cs) =
     (case match_at (c # cs) of
        None \<Rightarrow> scan 0 (Suc pos) cs
      | Some (t, n) \<Rightarrow>
          \<lparr>m_start = pos, m_end = pos + n, m_tok = t\<rparr> # scan (n - 1) (Suc pos) cs)"

definition finditer :: "string \<Rightarrow> rmatch list" where
  "finditer s = scan 0 0 s"

text \<open>\<open>FUNC_PARAM_RE.split(params)\<close>, the separator being \<open>,\s*\<close>.\<close>

function split_params :: "string \<Rightarrow> string list" where
  "split_params [] = [[]]"
| "split_params (c # cs) =
     (if c = CHR '',''
      then [] # split_params (dropWhile is_space cs)
      else (case split_params cs of
              x # xs \<Rightarrow> (c # x) # xs
            | [] \<Rightarrow> [[c]]))"
  by pat_completeness auto
termination
  by (relation "measure length") (auto simp: le_imp_less_Suc length_dropWhile_le)

section \<open>The stack of open blocks\<close>

text \<open>
  A frame of the stack is the root item or the address of a function object. The head of
  the list is \<open>stack.current\<close>, the last element of the Python list.
\<close>

datatype frame = Root | Fn nat

record pstate =
  heap :: "obj list"
  root_contents :: "citem list"
  stack :: "frame list"

definition empty_state :: pstate where
  "empty_state = \<lparr>heap = [], root_contents = [], stack = []\<rparr>"

text \<open>\<open>FUNCTIONS.get(func_name, BlockFunction)\<close> and the constructors.\<close>

definition function_class :: "string \<Rightarrow> okind" where
  "function_class name =
     (if name = ''If'' \<or> name = ''ElseIf'' then IfBlockFunction
      else if name = ''Else'' then ElseBlockFunction
      else BlockFunction)"

definition new_function :: "string \<Rightarrow> value list \<Rightarrow> obj" where
  "new_function name ps = Obj (function_class name) name ps [] 1 False [] [] IfTrue"

definition append_contents :: "citem \<Rightarrow> obj \<Rightarrow> obj" where
  "append_contents c ob =
     Obj (kind ob) (func_name ob) (params ob) (contents ob @ [c]) (pop_count ob) (is_elseif ob)
       (if_true_content ob) (if_false_content ob) (cur_content ob)"

text \<open>\<open>self._cur_content.append(content)\<close>: the bucket that \<open>_cur_content\<close> aliases.\<close>

definition append_cur :: "citem \<Rightarrow> obj \<Rightarrow> obj" where
  "append_cur c ob =
     (case cur_content ob of
        IfTrue \<Rightarrow>
          Obj (kind ob) (func_name ob) (params ob) (contents ob) (pop_count ob) (is_elseif ob)
            (if_true_content ob @ [c]) (if_false_content ob) (cur_content ob)
      | IfFalse \<Rightarrow>
          Obj (kind ob) (func_name ob) (params ob) (contents ob) (pop_count ob) (is_elseif ob)
            (if_true_content ob) (if_false_content ob @ [c]) (cur_content ob))"

definition switch_to_false :: "obj \<Rightarrow> obj" where
  "switch_to_false ob =
     Obj (kind ob) (func_name ob) (params ob) (contents ob) (pop_count ob) (is_elseif ob)
       (if_true_content ob) (if_false_content ob) IfFalse"

definition become_if :: "nat \<Rightarrow> obj \<Rightarrow> obj" where
  "become_if n ob =
     Obj (kind ob) ''If'' (params ob) (contents ob) n True
       (if_true_content ob) (if_false_content ob) (cur_content ob)"

definition is_function :: "citem \<Rightarrow> bool" where
  "is_function c = (case c of CObj _ \<Rightarrow> True | _ \<Rightarrow> False)"

definition is_if_frame :: "obj list \<Rightarrow> frame \<Rightarrow> bool" where
  "is_if_frame h f = (case f of Root \<Rightarrow> False | Fn a \<Rightarrow> kind (h ! a) = IfBlockFunction)"

definition frame_pop_count :: "obj list \<Rightarrow> frame \<Rightarrow> nat" where
  "frame_pop_count h f = (case f of Root \<Rightarrow> 1 | Fn a \<Rightarrow> pop_count (h ! a))"

definition frame_contents :: "pstate \<Rightarrow> frame \<Rightarrow> citem list" where
  "frame_contents st f = (case f of Root \<Rightarrow> root_contents st | Fn a \<Rightarrow> contents (heap st ! a))"

text \<open>
  \<open>add_content\<close> of the frame \<open>f\<close>: the new state and the flag ``the content can be
  pushed''. The root, a \<open>BlockFunction\<close> and an \<open>ElseBlockFunction\<close> use
  \<open>StringParserStackItem.add_content\<close>, an \<open>IfBlockFunction\<close> its own. Every function
  object is a \<open>BlockFunction\<close>, so \<open>isinstance(content, BlockFunction)\<close> is ``the
  content is an object''.
\<close>

definition add_content :: "frame \<Rightarrow> citem \<Rightarrow> pstate \<Rightarrow> error + (pstate \<times> bool)" where
  "add_content f c st =
     (case f of
        Root \<Rightarrow> Inr (st\<lparr>root_contents := root_contents st @ [c]\<rparr>, is_function c)
      | Fn a \<Rightarrow>
          (let h = heap st; ob = h ! a in
           if kind ob \<noteq> IfBlockFunction
           then Inr (st\<lparr>heap := h[a := append_contents c ob]\<rparr>, is_function c)
           else
             (case c of
                CObj b \<Rightarrow>
                  (let name = func_name (h ! b) in
                   if name = ''Else'' \<or> name = ''ElseIf''
                   then
                     if if_true_content ob = []
                     then Inl (ConstructorError
                            (''Found '' @ name @ '' without a '' @ [CHR 0x22] @ ''true''
                               @ [CHR 0x22] @ '' value in the If''))
                     else if if_false_content ob \<noteq> []
                     then Inl (ConstructorError (''Found '' @ name @ '' after an Else''))
                     else
                       (let h1 = h[a := switch_to_false ob] in
                        if name = ''Else'' then Inr (st\<lparr>heap := h1\<rparr>, False)
                        else
                          (let h2 = h1[b := become_if (pop_count (h1 ! a) + 1) (h1 ! b)];
                               h3 = h2[a := append_cur c (h2 ! a)]
                           in Inr (st\<lparr>heap := h3\<rparr>, True)))
                   else Inr (st\<lparr>heap := h[a := append_cur c ob]\<rparr>, True))
              | _ \<Rightarrow> Inr (st\<lparr>heap := h[a := append_cur c ob]\<rparr>, True))))"

definition add_to_current :: "citem \<Rightarrow> pstate \<Rightarrow> error + pstate" where
  "add_to_current c st =
     (case stack st of
        [] \<Rightarrow> Inl IndexError
      | cur # _ \<Rightarrow> (case add_content cur c st of Inl e \<Rightarrow> Inl e | Inr (st', _) \<Rightarrow> Inr st'))"

text \<open>\<open>func.validate(stack)\<close> for the object at \<open>b\<close>, by its class.\<close>

definition validate :: "pstate \<Rightarrow> nat \<Rightarrow> frame \<Rightarrow> error + unit" where
  "validate st b cur =
     (let ob = heap st ! b in
      case kind ob of
        BlockFunction \<Rightarrow> Inr ()
      | IfBlockFunction \<Rightarrow>
          if is_elseif ob \<and> \<not> is_if_frame (heap st) cur
          then Inl (ConstructorError ''Found ElseIf without a matching If or ElseIf'')
          else Inr ()
      | ElseBlockFunction \<Rightarrow>
          if \<not> is_if_frame (heap st) cur
          then Inl (ConstructorError ''Found Else without a matching If'')
          else Inr ())"

text \<open>
  \<open>_handle_func\<close>. \<open>stack.current\<close> is read first, then the parameters are parsed
  (\<open>ps\<close> is the outcome), then the object is made, validated and added.
\<close>

definition handle_func :: "string \<Rightarrow> error + value list \<Rightarrow> bool \<Rightarrow> pstate \<Rightarrow> error + pstate" where
  "handle_func name ps func_open st =
     (case stack st of
        [] \<Rightarrow> Inl IndexError
      | cur # _ \<Rightarrow>
          (case ps of
             Inl e \<Rightarrow> Inl e
           | Inr norm_params \<Rightarrow>
               (let b = length (heap st);
                    st1 = st\<lparr>heap := heap st @ [new_function name norm_params]\<rparr>
                in case validate st1 b cur of
                     Inl e \<Rightarrow> Inl e
                   | Inr _ \<Rightarrow>
                       (case add_content cur (CObj b) st1 of
                          Inl e \<Rightarrow> Inl e
                        | Inr (st2, can_push) \<Rightarrow>
                            Inr (if can_push \<and> func_open
                                 then st2\<lparr>stack := Fn b # stack st2\<rparr>
                                 else st2)))))"

text \<open>\<open>_handle_func_block_close\<close>: \<open>pop_count\<close> pops; a pop of the empty stack raises.\<close>

definition handle_func_block_close :: "pstate \<Rightarrow> error + pstate" where
  "handle_func_block_close st =
     (case stack st of
        [] \<Rightarrow> Inl IndexError
      | cur # _ \<Rightarrow>
          (let k = frame_pop_count (heap st) cur in
           if k \<le> length (stack st) then Inr (st\<lparr>stack := drop k (stack st)\<rparr>)
           else Inl IndexError))"

datatype ptok =
    PFunc string "error + value list" bool
  | PClose
  | PRef string
  | PVar string

record pmatch =
  p_start :: nat
  p_end :: nat
  p_tok :: ptok

definition handle_tok :: "ptok \<Rightarrow> pstate \<Rightarrow> error + pstate" where
  "handle_tok t st =
     (case t of
        PFunc name ps func_open \<Rightarrow> handle_func name ps func_open st
      | PClose \<Rightarrow> handle_func_block_close st
      | PRef name \<Rightarrow> add_to_current (CRef name) st
      | PVar name \<Rightarrow> add_to_current (CVar name) st)"

text \<open>The slice \<open>s[i:j]\<close> for \<open>0 \<le> i\<close> and \<open>0 \<le> j\<close>.\<close>

definition slice :: "nat \<Rightarrow> nat \<Rightarrow> string \<Rightarrow> string" where
  "slice i j s = take (j - i) (drop i s)"

text \<open>
  The loop of \<open>_parse_line\<close> over the matches, with \<open>prev\<close>. The text before a match
  is added when \<open>start > 0\<close>, also when it is empty.
\<close>

fun run_matches :: "string \<Rightarrow> pmatch list \<Rightarrow> nat \<Rightarrow> pstate \<Rightarrow> error + (nat \<times> pstate)" where
  "run_matches s [] prev st = Inr (prev, st)"
| "run_matches s (m # ms) prev st =
     (case (if p_start m > 0 then add_to_current (CStr (slice prev (p_start m) s)) st else Inr st) of
        Inl e \<Rightarrow> Inl e
      | Inr st1 \<Rightarrow>
          (case handle_tok (p_tok m) st1 of
             Inl e \<Rightarrow> Inl e
           | Inr st2 \<Rightarrow> run_matches s ms (p_end m) st2))"

text \<open>\<open>if not stack: stack.push(StringParserStackItem())\<close>\<close>

definition ensure_root :: "pstate \<Rightarrow> pstate" where
  "ensure_root st = (if stack st = [] then st\<lparr>root_contents := [], stack := [Root]\<rparr> else st)"

definition parse_line_with :: "pmatch list \<Rightarrow> string \<Rightarrow> pstate \<Rightarrow> error + pstate" where
  "parse_line_with ms s st =
     (case run_matches s ms 0 (ensure_root st) of
        Inl e \<Rightarrow> Inl e
      | Inr (prev, st1) \<Rightarrow>
          if prev \<noteq> length s then add_to_current (CStr (drop prev s)) st1 else Inr st1)"

text \<open>
  What \<open>_parse_line\<close> returns when it is called without a stack, for a parameter: the
  contents of the current frame, collapsed when there are several.
\<close>

definition raw_item :: "obj list \<Rightarrow> citem \<Rightarrow> value" where
  "raw_item h c =
     (case c of
        CStr s \<Rightarrow> Str s
      | CRef n \<Rightarrow> Dict [(''Ref'', Str n)]
      | CVar n \<Rightarrow> VarReference n
      | CObj b \<Rightarrow> Raw h b)"

definition parts_result :: "template_state \<Rightarrow> pstate \<Rightarrow> error + value" where
  "parts_result ts st =
     (case stack st of
        [] \<Rightarrow> Inl IndexError
      | cur # _ \<Rightarrow>
          (let parts = frame_contents st cur in
           if length parts > 1
           then Inr (collapse_variables ts (map (raw_item (heap st)) parts))
           else (case parts of [] \<Rightarrow> Inl IndexError | p # _ \<Rightarrow> Inr (raw_item (heap st) p))))"

section \<open>Parameters of a function call\<close>

text \<open>
  \<open>_handle_func\<close> parses every parameter with \<open>_parse_line(value)\<close>, on a stack
  of its own. A parameter is shorter than the line it stands in, which bounds the recursion.
\<close>

lemma split_params_length: "v \<in> set (split_params p) \<Longrightarrow> length v \<le> length p"
proof (induction p arbitrary: v rule: split_params.induct)
  case 1
  then show ?case by simp
next
  case (2 c cs)
  show ?case
  proof (cases "c = CHR '',''")
    case True
    with 2 show ?thesis
      by (auto intro: le_SucI order_trans [OF _ length_dropWhile_le])
  next
    case False
    with 2 show ?thesis
      by (auto split: list.splits intro: le_SucI)
  qed
qed

lemma match_params_length:
  "match_params s = Some (Some p, n, r) \<Longrightarrow> length p < length s"
  by (auto simp: match_params_def Let_def split: list.splits if_splits
      intro: le_imp_less_Suc length_takeWhile_le)

lemma match_func_length:
  "match_func s = Some (TFunc name (Some p) opn, n) \<Longrightarrow> length p < length s"
proof -
  assume a: "match_func s = Some (TFunc name (Some p) opn, n)"
  then obtain a b r0 where s: "s = a # b # r0"
    by (auto simp: match_func_def split: list.splits)
  let ?r3 = "dropWhile is_space (dropWhile is_alpha (dropWhile is_space r0))"
  from a s obtain np r4 where "match_params ?r3 = Some (Some p, np, r4)"
    by (auto simp: match_func_def Let_def split: list.splits if_splits option.splits)
  then have "length p < length ?r3" by (rule match_params_length)
  also have "length ?r3 \<le> length r0"
    by (meson length_dropWhile_le order_trans)
  finally show ?thesis using s by simp
qed

lemma match_at_length:
  "match_at s = Some (TFunc name (Some p) opn, n) \<Longrightarrow> length p < length s"
  by (auto simp: match_at_def match_close_def match_ref_def match_var_def Let_def
      split: option.splits list.splits if_splits dest: match_func_length)

lemma scan_params_length:
  "m \<in> set (scan k pos s) \<Longrightarrow> m_tok m = TFunc name (Some p) opn \<Longrightarrow> length p < length s"
proof (induction k pos s rule: scan.induct)
  case (1 covered pos)
  then show ?case by simp
next
  case (2 k pos c cs)
  then show ?case by auto
next
  case (3 pos c cs)
  show ?case
  proof (cases "match_at (c # cs)")
    case None
    with 3 have "length p < length cs" by auto
    then show ?thesis by simp
  next
    case (Some tn)
    obtain t n where tn: "tn = (t, n)" by (cases tn)
    from 3(3) Some tn have
      "m = \<lparr>m_start = pos, m_end = pos + n, m_tok = t\<rparr> \<or> m \<in> set (scan (n - 1) (Suc pos) cs)"
      by simp
    then show ?thesis
    proof
      assume "m = \<lparr>m_start = pos, m_end = pos + n, m_tok = t\<rparr>"
      with 3(4) Some tn have "match_at (c # cs) = Some (TFunc name (Some p) opn, n)" by simp
      then show ?thesis by (rule match_at_length)
    next
      assume "m \<in> set (scan (n - 1) (Suc pos) cs)"
      with 3(2) [OF Some tn [symmetric]] 3(4) have "length p < length cs" by simp
      then show ?thesis by simp
    qed
  qed
qed

function parse_value :: "template_state \<Rightarrow> string \<Rightarrow> error + value" where
  "parse_value ts s =
     (case parse_line_with
             (map (\<lambda>m. \<lparr>p_start = m_start m, p_end = m_end m,
                         p_tok =
                           (case m_tok m of
                              TFunc name ps func_open \<Rightarrow>
                                PFunc name
                                  (case ps of
                                     None \<Rightarrow> Inr []
                                   | Some p \<Rightarrow> sequenceE (map (parse_value ts) (split_params p)))
                                  func_open
                            | TClose \<Rightarrow> PClose
                            | TRef n \<Rightarrow> PRef n
                            | TVar n \<Rightarrow> PVar n)\<rparr>)
                (finditer s))
             s empty_state of
        Inl e \<Rightarrow> Inl e
      | Inr st \<Rightarrow> parts_result ts st)"
  by pat_completeness auto
termination
proof (relation "measure (\<lambda>(ts, s). length s)")
  show "wf (measure (\<lambda>(ts, s). length s))" by simp
next
  fix ts :: template_state and s :: string and m name ps func_open p v
  assume m: "m \<in> set (finditer s)" and t: "m_tok m = TFunc name ps func_open"
    and ps: "ps = Some p" and v: "v \<in> set (split_params p)"
  from m t ps have "length p < length s"
    unfolding finditer_def by (auto dest: scan_params_length)
  with split_params_length [OF v] show "((ts, v), (ts, s)) \<in> measure (\<lambda>(ts, s). length s)"
    by simp
qed

definition parse_params :: "template_state \<Rightarrow> string option \<Rightarrow> error + value list" where
  "parse_params ts ps =
     (case ps of None \<Rightarrow> Inr [] | Some p \<Rightarrow> sequenceE (map (parse_value ts) (split_params p)))"

definition parse_tok :: "template_state \<Rightarrow> tok \<Rightarrow> ptok" where
  "parse_tok ts t =
     (case t of
        TFunc name ps func_open \<Rightarrow> PFunc name (parse_params ts ps) func_open
      | TClose \<Rightarrow> PClose
      | TRef n \<Rightarrow> PRef n
      | TVar n \<Rightarrow> PVar n)"

definition ptokens :: "template_state \<Rightarrow> string \<Rightarrow> pmatch list" where
  "ptokens ts s =
     map (\<lambda>m. \<lparr>p_start = m_start m, p_end = m_end m, p_tok = parse_tok ts (m_tok m)\<rparr>)
       (finditer s)"

text \<open>\<open>_parse_line(s, func_stack)\<close> with a stack: the stack is updated.\<close>

definition parse_line :: "template_state \<Rightarrow> string \<Rightarrow> pstate \<Rightarrow> error + pstate" where
  "parse_line ts s st = parse_line_with (ptokens ts s) s st"

section \<open>Serialization\<close>

text \<open>
  The end of \<open>normalize_content\<close>, for a list whose elements are normalized: the
  resolution state processes it, then one element stands for the list and several are
  joined, except in a \<open>VarsStringsList\<close>.
\<close>

definition normalize_list :: "template_state \<Rightarrow> value list \<Rightarrow> value" where
  "normalize_list ts xs =
     (case norm_vars ts xs of
        (k, zs) \<Rightarrow>
          if length zs = 1 then hd zs
          else if length zs > 1 \<and> k \<noteq> VarsStringsList
          then Dict [(''Fn::Join'', List PyList [Str [], List k zs])]
          else List k zs)"

text \<open>
  Python's truth value. A \<open>VarReference\<close> and a parser object define neither
  \<open>__len__\<close> nor \<open>__nonzero__\<close> in what the sources show, so they are true.
\<close>

fun truthy :: "value \<Rightarrow> bool" where
  "truthy (Str s) = (s \<noteq> [])"
| "truthy (VarReference n) = True"
| "truthy NoneV = False"
| "truthy (Dict kvs) = (kvs \<noteq> [])"
| "truthy (List k xs) = (xs \<noteq> [])"
| "truthy (Raw h a) = True"

text \<open>\<open>contents += x\<close> for a list \<open>x\<close>, \<open>contents.append(x)\<close> otherwise.\<close>

fun splice :: "value \<Rightarrow> value list" where
  "splice (List k xs) = xs"
| "splice v = [v]"

definition if_contents :: "value \<Rightarrow> value \<Rightarrow> value list" where
  "if_contents if_true if_false = splice if_true @ (if truthy if_false then splice if_false else [])"

text \<open>
  \<open>normalize_content\<close> of one item of a bucket of the object at \<open>a\<close>: an object is
  serialized (to a dictionary, which is returned as it is), anything else is returned as it
  is. An object is appended to a bucket of an object made before it, so its address is the
  greater one; \<open>BadAddress\<close> stands for a store that is not of this shape.
\<close>

definition normalize_with ::
  "(nat \<Rightarrow> error + value) \<Rightarrow> obj list \<Rightarrow> nat \<Rightarrow> citem \<Rightarrow> error + value" where
  "normalize_with ser h a c =
     (case c of
        CObj b \<Rightarrow> if a < b \<and> b < length h then ser b else Inl BadAddress
      | _ \<Rightarrow> Inr (raw_item h c))"

lemma normalize_with_cong [fundef_cong]:
  assumes "h = h'" "a = a'" "c = c'"
    and "\<And>b. c' = CObj b \<Longrightarrow> a' < b \<Longrightarrow> b < length h' \<Longrightarrow> ser b = ser' b"
  shows "normalize_with ser h a c = normalize_with ser' h' a' c'"
  using assms by (auto simp: normalize_with_def split: citem.splits)

text \<open>
  \<open>serialize\<close> of the function object at \<open>a\<close>: \<open>BlockFunction.serialize\<close>, with
  \<open>normalize_function_name\<close> and \<open>normalize_function_contents\<close> of the class.
\<close>

function serialize :: "template_state \<Rightarrow> obj list \<Rightarrow> nat \<Rightarrow> error + value" where
  "serialize ts h a =
     (let ob = h ! a in
      if kind ob = IfBlockFunction
      then
        (case sequenceE (map (normalize_with (serialize ts h) h a) (if_true_content ob)) of
           Inl e \<Rightarrow> Inl e
         | Inr true_items \<Rightarrow>
             (case sequenceE (map (normalize_with (serialize ts h) h a) (if_false_content ob)) of
                Inl e \<Rightarrow> Inl e
              | Inr false_items \<Rightarrow>
                  Inr (Dict [(''Fn::If'',
                         List UncollapsibleList
                           (params ob @ if_contents (normalize_list ts true_items)
                                          (normalize_list ts false_items)))])))
      else
        (case sequenceE (map (normalize_with (serialize ts h) h a) (contents ob)) of
           Inl e \<Rightarrow> Inl e
         | Inr norm_contents \<Rightarrow>
             Inr (Dict [(''Fn::'' @ func_name ob,
                    List UncollapsibleList (params ob @ norm_contents))])))"
  by pat_completeness auto
termination
  by (relation "measure (\<lambda>(ts, h, a). length h - a)") auto

text \<open>
  \<open>normalize_content\<close> of a value that is no parser object: a list is normalized
  element by element and collapsed. (An object inside such a list would be serialized; the
  lists that reach this function hold the results of \<open>normalize_content\<close>, which are
  no objects.)
\<close>

fun normalize_value :: "template_state \<Rightarrow> value \<Rightarrow> value" where
  "normalize_value ts (List k xs) = normalize_list ts (map (normalize_value ts) xs)"
| "normalize_value ts v = v"

definition normalize_item :: "template_state \<Rightarrow> obj list \<Rightarrow> citem \<Rightarrow> error + value" where
  "normalize_item ts h c =
     (case c of
        CObj b \<Rightarrow> if b < length h then serialize ts h b else Inl BadAddress
      | _ \<Rightarrow> Inr (raw_item h c))"

text \<open>
  \<open>frame.normalize_content(frame)\<close>. The root serializes to the list of its normalized
  contents, which \<open>normalize_content\<close> then treats as any list.
\<close>

definition normalize_frame :: "template_state \<Rightarrow> pstate \<Rightarrow> frame \<Rightarrow> error + value" where
  "normalize_frame ts st f =
     (case f of
        Fn a \<Rightarrow> serialize ts (heap st) a
      | Root \<Rightarrow>
          (case sequenceE (map (normalize_item ts (heap st)) (root_contents st)) of
             Inl e \<Rightarrow> Inl e
           | Inr serialized \<Rightarrow> Inr (normalize_list ts (map (normalize_value ts) serialized))))"

section \<open>parse\_string\<close>

text \<open>
  \<open>s.splitlines(True)\<close> and \<open>s.strip()\<close> of a unicode string, on the code points
  below 256.
\<close>

definition is_linebreak :: "char \<Rightarrow> bool" where
  "is_linebreak c =
     (c \<in> set [CHR 0x0A, CHR 0x0B, CHR 0x0C, CHR 0x0D, CHR 0x1C, CHR 0x1D, CHR 0x1E, CHR 0x85])"

fun splitlines :: "string \<Rightarrow> string list" where
  "splitlines [] = []"
| "splitlines [c] = [[c]]"
| "splitlines (c # d # cs) =
     (if c = CHR 0x0D \<and> d = CHR 0x0A then [c, d] # splitlines cs
      else if is_linebreak c then [c] # splitlines (d # cs)
      else (case splitlines (d # cs) of
              l # ls \<Rightarrow> (c # l) # ls
            | [] \<Rightarrow> [[c]]))"

definition is_pyspace :: "char \<Rightarrow> bool" where
  "is_pyspace c =
     (c \<in> set [CHR '' '', CHR 0x09, CHR 0x0A, CHR 0x0B, CHR 0x0C, CHR 0x0D,
                CHR 0x1C, CHR 0x1D, CHR 0x1E, CHR 0x1F, CHR 0x85, CHR 0xA0])"

definition strip :: "string \<Rightarrow> string" where
  "strip s = rev (dropWhile is_pyspace (rev (dropWhile is_pyspace s)))"

fun parse_lines :: "template_state \<Rightarrow> string list \<Rightarrow> pstate \<Rightarrow> error + pstate" where
  "parse_lines ts [] st = Inr st"
| "parse_lines ts (l # ls) st =
     (case parse_line ts l st of Inl e \<Rightarrow> Inl e | Inr st' \<Rightarrow> parse_lines ts ls st')"

definition parse_string :: "template_state \<Rightarrow> string \<Rightarrow> error + value" where
  "parse_string ts s =
     (case splitlines s of
        [] \<Rightarrow> Inl IndexError
      | first # rest \<Rightarrow>
          (let base64 = (strip first = ''__base64__'');
               lines = (if base64 then rest else first # rest)
           in case parse_lines ts lines empty_state of
                Inl e \<Rightarrow> Inl e
              | Inr st \<Rightarrow>
                  if length (stack st) > 1
                  then Inl (ConstructorError ''Unbalanced braces in template'')
                  else
                    (case stack st of
                       [] \<Rightarrow> Inl IndexError
                     | cur # _ \<Rightarrow>
                         (case normalize_frame ts st cur of
                            Inl e \<Rightarrow> Inl e
                          | Inr result \<Rightarrow>
                              Inr (if base64 then Dict [(''Fn::Base64'', result)] else result)))))"

section \<open>Evaluating the parser\<close>

text \<open>
  The recursive equations are unfolded one object or one parameter at a time, by the
  lemmas below.
\<close>

declare serialize.simps [simp del]
declare parse_value.simps [simp del]

lemma normalize_with_simps [simp]:
  "normalize_with ser h a (CStr s) = Inr (Str s)"
  "normalize_with ser h a (CRef n) = Inr (Dict [(''Ref'', Str n)])"
  "normalize_with ser h a (CVar n) = Inr (VarReference n)"
  "normalize_with ser h a (CObj b) = (if a < b \<and> b < length h then ser b else Inl BadAddress)"
  by (simp_all add: normalize_with_def raw_item_def)

lemma normalize_item_simps [simp]:
  "normalize_item ts h (CStr s) = Inr (Str s)"
  "normalize_item ts h (CRef n) = Inr (Dict [(''Ref'', Str n)])"
  "normalize_item ts h (CVar n) = Inr (VarReference n)"
  "normalize_item ts h (CObj b) = (if b < length h then serialize ts h b else Inl BadAddress)"
  by (simp_all add: normalize_item_def raw_item_def)

lemma serialize_if:
  "kind (h ! a) = IfBlockFunction \<Longrightarrow>
   serialize ts h a =
     (case sequenceE (map (normalize_with (serialize ts h) h a) (if_true_content (h ! a))) of
        Inl e \<Rightarrow> Inl e
      | Inr true_items \<Rightarrow>
          (case sequenceE (map (normalize_with (serialize ts h) h a) (if_false_content (h ! a))) of
             Inl e \<Rightarrow> Inl e
           | Inr false_items \<Rightarrow>
               Inr (Dict [(''Fn::If'',
                      List UncollapsibleList
                        (params (h ! a) @ if_contents (normalize_list ts true_items)
                                       (normalize_list ts false_items)))])))"
  by (subst serialize.simps) (simp add: Let_def)

lemma serialize_block:
  "kind (h ! a) \<noteq> IfBlockFunction \<Longrightarrow>
   serialize ts h a =
     (case sequenceE (map (normalize_with (serialize ts h) h a) (contents (h ! a))) of
        Inl e \<Rightarrow> Inl e
      | Inr norm_contents \<Rightarrow>
          Inr (Dict [(''Fn::'' @ func_name (h ! a),
                 List UncollapsibleList (params (h ! a) @ norm_contents))]))"
  by (subst serialize.simps) (simp add: Let_def)

lemma parse_value_eq:
  "parse_value ts s =
     (case parse_line_with (ptokens ts s) s empty_state of
        Inl e \<Rightarrow> Inl e
      | Inr st \<Rightarrow> parts_result ts st)"
  unfolding ptokens_def parse_tok_def parse_params_def by (rule parse_value.simps)

lemmas machine_defs = Let_def parse_line_def parse_line_with_def ensure_root_def empty_state_def handle_tok_def
  handle_func_def handle_func_block_close_def add_to_current_def add_content_def validate_def
  new_function_def function_class_def is_if_frame_def frame_pop_count_def is_function_def
  append_contents_def append_cur_def switch_to_false_def become_if_def slice_def

text \<open>A parameter that is plain text is that text.\<close>

lemma parse_value_text:
  "finditer s = [] \<Longrightarrow> s \<noteq> [] \<Longrightarrow> parse_value ts s = Inr (Str s)"
  by (simp add: parse_value_eq ptokens_def parse_line_with_def ensure_root_def empty_state_def
      add_to_current_def add_content_def parts_result_def frame_contents_def raw_item_def
      is_function_def)

text \<open>
  A resolution state for the examples: it leaves every list as it is, which is what the
  tests of \<open>tests.py\<close> without variables show.
\<close>

definition plain_state :: template_state where
  "plain_state = \<lparr>norm_vars = (\<lambda>xs. (PyList, xs)), collapse_variables = List PyList\<rparr>"

section \<open>The empty string\<close>

text \<open>
  C9. \<open>parse_string\<close> of the empty string raises: \<open>splitlines\<close> returns no line,
  and \<open>lines[0]\<close> is an \<open>IndexError\<close>, not a syntax error of the template and
  not a content tree.
\<close>

theorem parse_string_empty:
  "parse_string ts [] = Inl IndexError"
  by (simp add: parse_string_def)

section \<open>Content normalization\<close>

text \<open>
  C2. When content normalization finishes a list, with \<open>zs\<close> of class \<open>k\<close> what
  the resolution state made of the normalized elements: a list of length 1 collapses to its
  element; a longer one becomes \<open>{"Fn::Join": ["", zs]}\<close>, unless it is a
  \<open>VarsStringsList\<close>, which is returned as it is. \<open>normalize_list\<close> is that end
  of \<open>normalize_content\<close>; the root's contents, both buckets of an \<open>If\<close> and
  every list value go through it.
\<close>

theorem normalize_list_cases:
  assumes "norm_vars ts xs = (k, zs)"
  shows "(length zs = 1 \<longrightarrow> normalize_list ts xs = hd zs) \<and>
         (1 < length zs \<and> k \<noteq> VarsStringsList \<longrightarrow>
            normalize_list ts xs = Dict [(''Fn::Join'', List PyList [Str [], List k zs])]) \<and>
         (1 < length zs \<and> k = VarsStringsList \<longrightarrow>
            normalize_list ts xs = List VarsStringsList zs)"
  using assms by (simp add: normalize_list_def)

theorem normalize_list_cases_witness:
  "(let ts = \<lparr>norm_vars = (\<lambda>xs. (if VarReference ''v'' \<in> set xs then VarsStringsList
                                      else PyList, xs)),
               collapse_variables = List PyList\<rparr>
    in norm_vars ts [Str ''a''] = (PyList, [Str ''a'']) \<and>
       normalize_list ts [Str ''a''] = Str ''a'' \<and>
       norm_vars ts [Str ''a'', Str ''b''] = (PyList, [Str ''a'', Str ''b'']) \<and>
       normalize_list ts [Str ''a'', Str ''b'']
         = Dict [(''Fn::Join'', List PyList [Str [], List PyList [Str ''a'', Str ''b'']])] \<and>
       norm_vars ts [Str ''a'', VarReference ''v'']
         = (VarsStringsList, [Str ''a'', VarReference ''v'']) \<and>
       normalize_list ts [Str ''a'', VarReference ''v'']
         = List VarsStringsList [Str ''a'', VarReference ''v''])"
proof -
  define ts where
    "ts = \<lparr>norm_vars = (\<lambda>xs. (if VarReference ''v'' \<in> set xs then VarsStringsList
                                 else PyList, xs)),
           collapse_variables = List PyList\<rparr>"
  have a: "norm_vars ts [Str ''a''] = (PyList, [Str ''a''])"
    and b: "norm_vars ts [Str ''a'', Str ''b''] = (PyList, [Str ''a'', Str ''b''])"
    and c: "norm_vars ts [Str ''a'', VarReference ''v'']
              = (VarsStringsList, [Str ''a'', VarReference ''v''])"
    by (simp_all add: ts_def)
  from normalize_list_cases [OF a] normalize_list_cases [OF b] normalize_list_cases [OF c] a b c
  show ?thesis unfolding ts_def [symmetric] by (simp add: Let_def)
qed

text \<open>The list value and the root go through the same function.\<close>

lemma normalize_value_list:
  "normalize_value ts (List k xs) = normalize_list ts (map (normalize_value ts) xs)"
  by simp

lemma normalize_frame_root:
  "sequenceE (map (normalize_item ts (heap st)) (root_contents st)) = Inr ys \<Longrightarrow>
   normalize_frame ts st Root = Inr (normalize_list ts (map (normalize_value ts) ys))"
  by (simp add: normalize_frame_def)

section \<open>Unbalanced blocks\<close>

text \<open>
  \<open>parse_string\<close> compares the stack with one frame only from above
  (\<open>len(func_stack) > 1\<close>): blocks left open raise the syntax error.
\<close>

lemma unclosed_blocks_raise:
  assumes "splitlines s = first # rest"
    and "parse_lines ts (if strip first = ''__base64__'' then rest else first # rest) empty_state
           = Inr st"
    and "length (stack st) > 1"
  shows "parse_string ts s = Inl (ConstructorError ''Unbalanced braces in template'')"
  using assms by (simp add: parse_string_def Let_def)

lemma fi_a: "finditer ''a'' = []"
  by code_simp

lemma fi_b: "finditer ''b'' = []"
  by code_simp

lemma fi_if_a: "finditer ''<% If (a) { %>\<newline>'' =
    [\<lparr>m_start = 0, m_end = 15, m_tok = TFunc ''If'' (Some ''a'') True\<rparr>]"
  by code_simp

lemma fi_x: "finditer ''x\<newline>'' = []"
  by code_simp

lemma fi_y: "finditer ''y\<newline>'' = []"
  by code_simp

lemma fi_else: "finditer ''<% Else { %>\<newline>'' =
    [\<lparr>m_start = 0, m_end = 13, m_tok = TFunc ''Else'' None True\<rparr>]"
  by code_simp

lemma fi_close: "finditer ''<% } %>'' = [\<lparr>m_start = 0, m_end = 7, m_tok = TClose\<rparr>]"
  by code_simp

lemma unclosed_if_example:
  "parse_string ts ''<% If (a) { %>\<newline>x\<newline>''
     = Inl (ConstructorError ''Unbalanced braces in template'')"
proof -
  have sl: "splitlines ''<% If (a) { %>\<newline>x\<newline>'' = [''<% If (a) { %>\<newline>'', ''x\<newline>'']"
    by code_simp
  have st: "strip ''<% If (a) { %>\<newline>'' \<noteq> ''__base64__''"
    by code_simp
  have pl: "parse_lines ts [''<% If (a) { %>\<newline>'', ''x\<newline>''] empty_state
      = Inr \<lparr>heap = [Obj IfBlockFunction ''If'' [Str ''a''] [] 1 False [CStr ''x\<newline>''] [] IfTrue],
             root_contents = [CObj 0], stack = [Fn 0, Root]\<rparr>"
    by (simp add: ptokens_def fi_if_a fi_x parse_tok_def parse_params_def parse_value_text fi_a
        machine_defs)
  show ?thesis
    apply (simp only: parse_string_def sl list.case st Let_def if_False pl sum.case)
    apply simp
    done
qed

text \<open>
  C3. A close marker with no open block is not reported as a syntax error: the marker pops
  the root, the stack is empty, \<open>len(func_stack) > 1\<close> is false and
  \<open>func_stack.current\<close> raises \<open>IndexError\<close>.
\<close>

theorem close_without_open:
  "parse_string ts ''<% } %>'' = Inl IndexError"
  by code_simp

text \<open>
  When a line follows, \<open>_parse_line\<close> pushes a new root on the empty stack: the text
  before the marker is lost and no error is raised at all.
\<close>

lemma close_without_open_accepted:
  "parse_string ts ''a\<newline><% } %>\<newline>b'' = Inr (normalize_list ts [Str ''b''])"
proof -
  have sl: "splitlines ''a\<newline><% } %>\<newline>b'' = [''a\<newline>'', ''<% } %>\<newline>'', ''b'']"
    by code_simp
  have st: "strip ''a\<newline>'' \<noteq> ''__base64__''"
    by code_simp
  have pl: "parse_lines ts [''a\<newline>'', ''<% } %>\<newline>'', ''b''] empty_state
      = Inr \<lparr>heap = [], root_contents = [CStr ''b''], stack = [Root]\<rparr>"
    by code_simp
  show ?thesis
    apply (simp only: parse_string_def sl list.case st Let_def if_False pl sum.case)
    apply (simp add: normalize_frame_def)
    done
qed

section \<open>Else and ElseIf in their place\<close>

text \<open>
  Content of an \<open>If\<close> frame goes to the bucket \<open>_cur_content\<close> points to: the true
  bucket until an \<open>Else\<close> or \<open>ElseIf\<close> is added, the false bucket from then on.
\<close>

lemma if_content_goes_to_current_bucket:
  assumes "kind (heap st ! a) = IfBlockFunction" and "a < length (heap st)"
  shows "add_content (Fn a) (CStr s) st = Inr (st\<lparr>heap := (heap st)[a := append_cur (CStr s) (heap st ! a)]\<rparr>, True)"
    and "cur_content (heap st ! a) = IfTrue \<Longrightarrow>
           if_true_content (append_cur (CStr s) (heap st ! a)) = if_true_content (heap st ! a) @ [CStr s]
           \<and> if_false_content (append_cur (CStr s) (heap st ! a)) = if_false_content (heap st ! a)"
    and "cur_content (heap st ! a) = IfFalse \<Longrightarrow>
           if_false_content (append_cur (CStr s) (heap st ! a)) = if_false_content (heap st ! a) @ [CStr s]
           \<and> if_true_content (append_cur (CStr s) (heap st ! a)) = if_true_content (heap st ! a)"
  using assms by (simp_all add: add_content_def Let_def append_cur_def)

lemma else_without_true_value:
  assumes "kind (heap st ! a) = IfBlockFunction"
    and "func_name (heap st ! b) = ''Else'' \<or> func_name (heap st ! b) = ''ElseIf''"
    and "if_true_content (heap st ! a) = []"
  shows "add_content (Fn a) (CObj b) st =
           Inl (ConstructorError (''Found '' @ func_name (heap st ! b) @ '' without a ''
                  @ [CHR 0x22] @ ''true'' @ [CHR 0x22] @ '' value in the If''))"
  using assms by (auto simp: add_content_def Let_def)

lemma else_after_else:
  assumes "kind (heap st ! a) = IfBlockFunction"
    and "func_name (heap st ! b) = ''Else'' \<or> func_name (heap st ! b) = ''ElseIf''"
    and "if_true_content (heap st ! a) \<noteq> []"
    and "if_false_content (heap st ! a) \<noteq> []"
  shows "add_content (Fn a) (CObj b) st =
           Inl (ConstructorError (''Found '' @ func_name (heap st ! b) @ '' after an Else''))"
  using assms by (auto simp: add_content_def Let_def)

lemma else_outside_if:
  assumes "stack st = cur # rest" and "cur = Root \<or> (\<exists>a. cur = Fn a \<and> a < length (heap st) \<and> kind (heap st ! a) \<noteq> IfBlockFunction)"
  shows "handle_func ''Else'' (Inr ps) func_open st
           = Inl (ConstructorError ''Found Else without a matching If'')"
  using assms
  by (auto simp: handle_func_def validate_def Let_def new_function_def function_class_def
      is_if_frame_def nth_append)

lemma fi_elseif_x_close: "finditer ''<% ElseIf (b) { %>x<% } %>'' =
  [\<lparr>m_start = 0, m_end = 18, m_tok = TFunc ''ElseIf'' (Some ''b'') True\<rparr>,
   \<lparr>m_start = 19, m_end = 26, m_tok = TClose\<rparr>]" by code_simp

lemma sl_elseif_x_close: "splitlines ''<% ElseIf (b) { %>x<% } %>'' = [''<% ElseIf (b) { %>x<% } %>'']"
  by code_simp

lemma strip_elseif_x_close: "strip ''<% ElseIf (b) { %>x<% } %>'' \<noteq> ''__base64__''"
  by code_simp

lemma ptokens_elseif_x_close: "ptokens ts ''<% ElseIf (b) { %>x<% } %>'' =
  [\<lparr>p_start = 0, p_end = 18, p_tok = PFunc ''ElseIf'' (Inr [Str ''b'']) True\<rparr>,
   \<lparr>p_start = 19, p_end = 26, p_tok = PClose\<rparr>]"
  by (simp add: ptokens_def fi_elseif_x_close parse_tok_def parse_params_def parse_value_text fi_b)

lemma parse_lines_elseif_x_close: "parse_lines ts [''<% ElseIf (b) { %>x<% } %>''] empty_state = Inr \<lparr>heap = [Obj IfBlockFunction ''ElseIf'' [Str ''b''] [] 1 False [CStr ''x''] [] IfTrue], root_contents = [CObj 0], stack = [Root]\<rparr>"
  by (simp add: ptokens_elseif_x_close machine_defs)

text \<open>
  C4. An \<open>ElseIf\<close> outside an \<open>If\<close> is not an error. \<open>_handle_func\<close> calls
  \<open>validate\<close> before \<open>add_content\<close>, and \<open>IfBlockFunction.validate\<close> tests
  \<open>_is_elseif\<close>, which only \<open>add_content\<close> of an enclosing \<open>If\<close> sets: the
  test never fires. At the root the \<open>ElseIf\<close> is added and pushed like an \<open>If\<close>.
\<close>

theorem elseif_without_if_accepted:
  "parse_string ts ''<% ElseIf (b) { %>x<% } %>'' =
     Inr (normalize_list ts
            [Dict [(''Fn::If'',
               List UncollapsibleList
                 (Str ''b'' # if_contents (normalize_list ts [Str ''x'']) (normalize_list ts [])))]])"
  apply (simp only: parse_string_def sl_elseif_x_close list.case strip_elseif_x_close Let_def if_False parse_lines_elseif_x_close sum.case)
  apply (simp add: normalize_frame_def serialize_if)
  done

text \<open>
  A second \<open>Else\<close> is an error only when the false bucket has content: right after
  the first \<open>Else\<close> it is accepted.
\<close>

lemma second_else_accepted:
  "parse_string ts ''<% If (a) { %>\<newline>x\<newline><% Else { %>\<newline><% Else { %>\<newline>y\<newline><% } %>'' =
     Inr (normalize_list ts
            [Dict [(''Fn::If'',
               List UncollapsibleList
                 (Str ''a'' # if_contents (normalize_list ts [Str ''x\<newline>''])
                                (normalize_list ts [Str ''y\<newline>''])))]])"
proof -
  have sl: "splitlines ''<% If (a) { %>\<newline>x\<newline><% Else { %>\<newline><% Else { %>\<newline>y\<newline><% } %>''
      = [''<% If (a) { %>\<newline>'', ''x\<newline>'', ''<% Else { %>\<newline>'', ''<% Else { %>\<newline>'', ''y\<newline>'', ''<% } %>'']"
    by code_simp
  have st: "strip ''<% If (a) { %>\<newline>'' \<noteq> ''__base64__''"
    by code_simp
  have pl: "parse_lines ts [''<% If (a) { %>\<newline>'', ''x\<newline>'', ''<% Else { %>\<newline>'', ''<% Else { %>\<newline>'', ''y\<newline>'', ''<% } %>''] empty_state
      = Inr \<lparr>heap = [Obj IfBlockFunction ''If'' [Str ''a''] [] 1 False [CStr ''x\<newline>''] [CStr ''y\<newline>''] IfFalse,
               Obj ElseBlockFunction ''Else'' [] [] 1 False [] [] IfTrue,
               Obj ElseBlockFunction ''Else'' [] [] 1 False [] [] IfTrue],
             root_contents = [CObj 0], stack = [Root]\<rparr>"
    by (simp add: ptokens_def fi_if_a fi_x fi_y fi_else fi_close parse_tok_def parse_params_def
        parse_value_text fi_a machine_defs)
  show ?thesis
    apply (simp only: parse_string_def sl list.case st Let_def if_False pl sum.case)
    apply (simp add: normalize_frame_def serialize_if)
    done
qed

section \<open>Serialization of a conditional\<close>

text \<open>
  C5, as the code has it. An \<open>If\<close> object serializes to
  \<open>{"Fn::If": params + true + false}\<close>: \<open>params\<close> are the parameters of the
  call (the condition); \<open>true\<close> is what the true bucket normalizes to, its elements
  when that is a list (\<open>contents += if_true_content\<close>; none when the bucket is empty)
  and the value itself otherwise; \<open>false\<close> is the same for the false bucket, and is
  left out when that normalizes to an empty list, string or dictionary or to \<open>None\<close>:
  an empty false branch is never a placeholder. \<open>tv\<close> and \<open>fv\<close> are the
  normalized items of the two buckets.
\<close>

theorem if_serialize:
  assumes "kind (h ! a) = IfBlockFunction"
    and "sequenceE (map (normalize_with (serialize ts h) h a) (if_true_content (h ! a))) = Inr tv"
    and "sequenceE (map (normalize_with (serialize ts h) h a) (if_false_content (h ! a))) = Inr fv"
  shows "serialize ts h a =
           Inr (Dict [(''Fn::If'',
             List UncollapsibleList
               (params (h ! a) @
                (case normalize_list ts tv of List k xs \<Rightarrow> xs | t \<Rightarrow> [t]) @
                (case normalize_list ts fv of
                   List k xs \<Rightarrow> xs
                 | Str s \<Rightarrow> if s = [] then [] else [Str s]
                 | Dict kvs \<Rightarrow> if kvs = [] then [] else [Dict kvs]
                 | NoneV \<Rightarrow> []
                 | f \<Rightarrow> [f])))])"
proof -
  have t: "splice v = (case v of List k xs \<Rightarrow> xs | t \<Rightarrow> [t])" for v
    by (cases v) simp_all
  have f: "(if truthy v then splice v else []) =
             (case v of
                List k xs \<Rightarrow> xs
              | Str s \<Rightarrow> if s = [] then [] else [Str s]
              | Dict kvs \<Rightarrow> if kvs = [] then [] else [Dict kvs]
              | NoneV \<Rightarrow> []
              | f \<Rightarrow> [f])" for v
    by (cases v) simp_all
  show ?thesis
    using assms by (simp add: serialize_if if_contents_def t [symmetric] f [symmetric])
qed

theorem if_serialize_witness:
  "(let ts = \<lparr>norm_vars = (\<lambda>xs. (PyList, xs)), collapse_variables = List PyList\<rparr>;
        h = [Obj IfBlockFunction ''If'' [Str ''a''] [] 1 False [CStr ''x''] [] IfTrue,
             Obj IfBlockFunction ''If'' [Str ''b''] [] 1 False [CStr ''x''] [CStr ''y''] IfFalse,
             Obj IfBlockFunction ''If'' [Str ''c''] [] 1 False [] [] IfTrue,
             Obj IfBlockFunction ''If'' [Str ''d''] [] 1 False [CStr ''x'', CRef ''R'']
               [CStr ''y'', CStr ''z''] IfFalse]
    in kind (h ! 0) = IfBlockFunction \<and> kind (h ! 1) = IfBlockFunction \<and>
       kind (h ! 2) = IfBlockFunction \<and> kind (h ! 3) = IfBlockFunction \<and>
       serialize ts h 0
         = Inr (Dict [(''Fn::If'', List UncollapsibleList [Str ''a'', Str ''x''])]) \<and>
       serialize ts h 1
         = Inr (Dict [(''Fn::If'', List UncollapsibleList [Str ''b'', Str ''x'', Str ''y''])]) \<and>
       serialize ts h 2
         = Inr (Dict [(''Fn::If'', List UncollapsibleList [Str ''c''])]) \<and>
       serialize ts h 3
         = Inr (Dict [(''Fn::If'', List UncollapsibleList
                  [Str ''d'',
                   Dict [(''Fn::Join'', List PyList [Str [], List PyList
                            [Str ''x'', Dict [(''Ref'', Str ''R'')]]])],
                   Dict [(''Fn::Join'', List PyList [Str [], List PyList
                            [Str ''y'', Str ''z'']])]])]))"
proof -
  define ts where
    "ts = \<lparr>norm_vars = (\<lambda>xs. (PyList, xs)), collapse_variables = List PyList\<rparr>"
  define h where
    "h = [Obj IfBlockFunction ''If'' [Str ''a''] [] 1 False [CStr ''x''] [] IfTrue,
          Obj IfBlockFunction ''If'' [Str ''b''] [] 1 False [CStr ''x''] [CStr ''y''] IfFalse,
          Obj IfBlockFunction ''If'' [Str ''c''] [] 1 False [] [] IfTrue,
          Obj IfBlockFunction ''If'' [Str ''d''] [] 1 False [CStr ''x'', CRef ''R'']
            [CStr ''y'', CStr ''z''] IfFalse]"
  have k: "kind (h ! 0) = IfBlockFunction" "kind (h ! 1) = IfBlockFunction"
    "kind (h ! 2) = IfBlockFunction" "kind (h ! 3) = IfBlockFunction"
    by (simp_all add: h_def)
  have t0: "sequenceE (map (normalize_with (serialize ts h) h 0) (if_true_content (h ! 0)))
              = Inr [Str ''x'']"
    and f0: "sequenceE (map (normalize_with (serialize ts h) h 0) (if_false_content (h ! 0)))
              = Inr []"
    and t1: "sequenceE (map (normalize_with (serialize ts h) h 1) (if_true_content (h ! 1)))
              = Inr [Str ''x'']"
    and f1: "sequenceE (map (normalize_with (serialize ts h) h 1) (if_false_content (h ! 1)))
              = Inr [Str ''y'']"
    and t2: "sequenceE (map (normalize_with (serialize ts h) h 2) (if_true_content (h ! 2)))
              = Inr []"
    and f2: "sequenceE (map (normalize_with (serialize ts h) h 2) (if_false_content (h ! 2)))
              = Inr []"
    and t3: "sequenceE (map (normalize_with (serialize ts h) h 3) (if_true_content (h ! 3)))
              = Inr [Str ''x'', Dict [(''Ref'', Str ''R'')]]"
    and f3: "sequenceE (map (normalize_with (serialize ts h) h 3) (if_false_content (h ! 3)))
              = Inr [Str ''y'', Str ''z'']"
    by (simp_all add: h_def)
  have n: "normalize_list ts [] = List PyList []"
    "normalize_list ts [Str ''x''] = Str ''x''" "normalize_list ts [Str ''y''] = Str ''y''"
    "normalize_list ts [Str ''x'', Dict [(''Ref'', Str ''R'')]]
       = Dict [(''Fn::Join'', List PyList [Str [], List PyList
                            [Str ''x'', Dict [(''Ref'', Str ''R'')]]])]"
    "normalize_list ts [Str ''y'', Str ''z'']
       = Dict [(''Fn::Join'', List PyList [Str [], List PyList [Str ''y'', Str ''z'']])]"
    by (simp_all add: normalize_list_def ts_def)
  from if_serialize [OF k(1) t0 f0] if_serialize [OF k(2) t1 f1]
    if_serialize [OF k(3) t2 f2] if_serialize [OF k(4) t3 f3] k
  have "kind (h ! 0) = IfBlockFunction \<and> kind (h ! 1) = IfBlockFunction \<and>
       kind (h ! 2) = IfBlockFunction \<and> kind (h ! 3) = IfBlockFunction \<and>
       serialize ts h 0
         = Inr (Dict [(''Fn::If'', List UncollapsibleList [Str ''a'', Str ''x''])]) \<and>
       serialize ts h 1
         = Inr (Dict [(''Fn::If'', List UncollapsibleList [Str ''b'', Str ''x'', Str ''y''])]) \<and>
       serialize ts h 2
         = Inr (Dict [(''Fn::If'', List UncollapsibleList [Str ''c''])]) \<and>
       serialize ts h 3
         = Inr (Dict [(''Fn::If'', List UncollapsibleList
                  [Str ''d'',
                   Dict [(''Fn::Join'', List PyList [Str [], List PyList
                            [Str ''x'', Dict [(''Ref'', Str ''R'')]]])],
                   Dict [(''Fn::Join'', List PyList [Str [], List PyList
                            [Str ''y'', Str ''z'']])]])])"
    by (simp add: n) (simp add: h_def)
  then show ?thesis unfolding Let_def ts_def h_def .
qed

text \<open>
  The two forms \<open>[condition, true-result]\<close> and
  \<open>[condition, true-result, false-result]\<close>, for one condition and results that are
  dictionaries.
\<close>

lemma if_condition_true_false:
  assumes "kind (h ! a) = IfBlockFunction" and "params (h ! a) = [c]"
    and "sequenceE (map (normalize_with (serialize ts h) h a) (if_true_content (h ! a))) = Inr tv"
    and "sequenceE (map (normalize_with (serialize ts h) h a) (if_false_content (h ! a))) = Inr fv"
    and "normalize_list ts tv = Dict t"
  shows "normalize_list ts fv = List k [] \<Longrightarrow>
           serialize ts h a = Inr (Dict [(''Fn::If'', List UncollapsibleList [c, Dict t])])"
    and "normalize_list ts fv = Dict f \<Longrightarrow> f \<noteq> [] \<Longrightarrow>
           serialize ts h a =
             Inr (Dict [(''Fn::If'', List UncollapsibleList [c, Dict t, Dict f])])"
  using assms by (simp_all add: serialize_if if_contents_def)

text \<open>
  An \<open>If\<close> without a body: the true bucket normalizes to the empty list, nothing is
  added for it, and the result has the condition only.
\<close>

lemma sl_if_a_close: "splitlines ''<% If (a) { %>\<newline><% } %>'' = [''<% If (a) { %>\<newline>'', ''<% } %>'']"
  by code_simp

theorem if_without_body:
  "parse_string plain_state ''<% If (a) { %>\<newline><% } %>''
     = Inr (Dict [(''Fn::If'', List UncollapsibleList [Str ''a''])])"
proof -
  have st: "strip ''<% If (a) { %>\<newline>'' \<noteq> ''__base64__''"
    by code_simp
  have pl: "parse_lines plain_state [''<% If (a) { %>\<newline>'', ''<% } %>''] empty_state
      = Inr \<lparr>heap = [Obj IfBlockFunction ''If'' [Str ''a''] [] 1 False [] [] IfTrue],
             root_contents = [CObj 0], stack = [Root]\<rparr>"
    by (simp add: ptokens_def fi_if_a fi_close parse_tok_def parse_params_def parse_value_text fi_a
        machine_defs)
  show ?thesis
    apply (simp only: parse_string_def sl_if_a_close list.case st Let_def if_False pl sum.case)
    apply (simp add: normalize_frame_def serialize_if normalize_list_def plain_state_def
        if_contents_def)
    done
qed

section \<open>An Else is never a frame\<close>

text \<open>
  The shape of a stack: empty, or the root at the bottom and above it addresses of function
  objects that are no \<open>ElseBlockFunction\<close>.
\<close>

fun frames_ok :: "obj list \<Rightarrow> frame list \<Rightarrow> bool" where
  "frames_ok h [] = True"
| "frames_ok h [f] = (f = Root)"
| "frames_ok h (f # g # fs) =
     ((case f of Root \<Rightarrow> False
       | Fn a \<Rightarrow> a < length h \<and> kind (h ! a) \<noteq> ElseBlockFunction)
      \<and> frames_ok h (g # fs))"

text \<open>The shape only depends on the classes of the objects, which no update changes.\<close>

lemma frames_ok_tl: "frames_ok h (f # fs) \<Longrightarrow> frames_ok h fs"
  by (cases fs) auto

lemma frames_ok_drop: "frames_ok h fs \<Longrightarrow> frames_ok h (drop k fs)"
proof (induction k arbitrary: fs)
  case 0
  then show ?case by simp
next
  case (Suc k)
  then show ?case by (cases fs) (auto dest: frames_ok_tl)
qed

lemma frames_ok_heap:
  assumes "frames_ok h fs" and "length h \<le> length h'"
    and "\<And>i. i < length h \<Longrightarrow> kind (h' ! i) = kind (h ! i)"
  shows "frames_ok h' fs"
  using assms
  by (induction h fs rule: frames_ok.induct) (auto split: frame.splits)

lemma frames_ok_top_in_heap:
  "frames_ok h (Fn a # fs) \<Longrightarrow> a < length h \<and> kind (h ! a) \<noteq> ElseBlockFunction"
  by (cases fs) auto

lemma kind_update:
  "kind x = kind (h ! a) \<Longrightarrow> kind (h[a := x] ! i) = kind (h ! i)"
  by (cases "a < length h") (auto simp: nth_list_update not_less list_update_beyond)

lemma add_content_frame:
  assumes "add_content f c st = Inr (st', b)"
  shows "stack st' = stack st" and "length (heap st') = length (heap st)"
    and "kind (heap st' ! i) = kind (heap st ! i)"
  using assms
  by (auto simp: add_content_def Let_def kind_update append_contents_def append_cur_def
      switch_to_false_def become_if_def
      split: frame.splits citem.splits if_splits bucket.splits)

lemma add_to_current_ok:
  assumes "frames_ok (heap st) (stack st)" and "add_to_current c st = Inr st'"
  shows "frames_ok (heap st') (stack st')"
proof -
  from assms(2) obtain cur rest b where "stack st = cur # rest"
    and ac: "add_content cur c st = Inr (st', b)"
    by (auto simp: add_to_current_def split: list.splits sum.splits)
  from add_content_frame [OF ac] assms(1) show ?thesis
    by (auto intro: frames_ok_heap)
qed

lemma else_not_pushable:
  assumes "kind (heap st ! a) = IfBlockFunction"
    and "func_name (heap st ! b) = ''Else''"
    and "add_content (Fn a) (CObj b) st = Inr (st', can_push)"
  shows "\<not> can_push"
  using assms by (auto simp: add_content_def Let_def split: if_splits)

lemma handle_func_ok:
  assumes ok: "frames_ok (heap st) (stack st)"
    and hf: "handle_func name ps func_open st = Inr st'"
  shows "frames_ok (heap st') (stack st')"
proof -
  from hf obtain cur rest where stk: "stack st = cur # rest"
    by (auto simp: handle_func_def split: list.splits)
  from hf stk obtain norm_params where ps: "ps = Inr norm_params"
    by (auto simp: handle_func_def split: sum.splits)
  define b where "b = length (heap st)"
  define st1 where "st1 = st\<lparr>heap := heap st @ [new_function name norm_params]\<rparr>"
  from hf stk ps obtain st2 can_push where
    val: "validate st1 b cur = Inr ()"
    and ac: "add_content cur (CObj b) st1 = Inr (st2, can_push)"
    and st': "st' = (if can_push \<and> func_open then st2\<lparr>stack := Fn b # stack st2\<rparr> else st2)"
    by (auto simp: handle_func_def Let_def b_def st1_def split: sum.splits)
  have ok1: "frames_ok (heap st1) (stack st1)"
    using ok by (auto simp: st1_def nth_append intro: frames_ok_heap)
  note fr = add_content_frame [OF ac]
  have ok2: "frames_ok (heap st2) (stack st2)"
    using ok1 fr by (auto intro: frames_ok_heap)
  have newobj: "heap st1 ! b = new_function name norm_params" "b < length (heap st1)"
    by (simp_all add: st1_def b_def)
  show ?thesis
  proof (cases "can_push \<and> func_open")
    case False
    with st' ok2 show ?thesis by simp
  next
    case True
    have not_else: "kind (heap st1 ! b) \<noteq> ElseBlockFunction"
    proof
      assume e: "kind (heap st1 ! b) = ElseBlockFunction"
      then have nm: "name = ''Else''"
        by (auto simp: newobj new_function_def function_class_def split: if_splits)
      from val e have "is_if_frame (heap st1) cur"
        by (auto simp: validate_def Let_def split: if_splits)
      then obtain a where cur: "cur = Fn a" and k: "kind (heap st1 ! a) = IfBlockFunction"
        by (auto simp: is_if_frame_def split: frame.splits)
      have "func_name (heap st1 ! b) = ''Else''"
        by (simp add: newobj new_function_def nm)
      from else_not_pushable [OF k this ac [unfolded cur]] True show False by simp
    qed
    have "frames_ok (heap st2) (Fn b # stack st2)"
    proof (cases "stack st2")
      case Nil
      with fr(1) stk show ?thesis by (simp add: st1_def)
    next
      case (Cons g gs)
      from fr(2) newobj(2) have "b < length (heap st2)" by simp
      moreover from fr(3) not_else have "kind (heap st2 ! b) \<noteq> ElseBlockFunction" by simp
      ultimately show ?thesis using ok2 Cons by simp
    qed
    with st' True show ?thesis by simp
  qed
qed

lemma close_ok:
  assumes "frames_ok (heap st) (stack st)" and "handle_func_block_close st = Inr st'"
  shows "frames_ok (heap st') (stack st')"
  using assms
  by (auto simp: handle_func_block_close_def Let_def frames_ok_drop split: list.splits if_splits)

lemma handle_tok_ok:
  assumes "frames_ok (heap st) (stack st)" and "handle_tok t st = Inr st'"
  shows "frames_ok (heap st') (stack st')"
  using assms
  by (cases t) (auto simp: handle_tok_def intro: handle_func_ok close_ok add_to_current_ok)

lemma run_matches_ok:
  assumes "frames_ok (heap st) (stack st)" and "run_matches s ms prev st = Inr (prev', st')"
  shows "frames_ok (heap st') (stack st')"
  using assms
proof (induction ms arbitrary: prev st)
  case Nil
  then show ?case by simp
next
  case (Cons m ms)
  from Cons.prems(2) obtain st1 st2 where
    a: "(if p_start m > 0 then add_to_current (CStr (slice prev (p_start m) s)) st else Inr st) = Inr st1"
    and b: "handle_tok (p_tok m) st1 = Inr st2"
    and c: "run_matches s ms (p_end m) st2 = Inr (prev', st')"
    by (auto split: sum.splits)
  from a Cons.prems(1) have "frames_ok (heap st1) (stack st1)"
    by (auto split: if_splits intro: add_to_current_ok)
  from this b have "frames_ok (heap st2) (stack st2)" by (rule handle_tok_ok)
  from this c show ?case by (rule Cons.IH)
qed

lemma ensure_root_ok:
  "frames_ok (heap st) (stack st) \<Longrightarrow> frames_ok (heap (ensure_root st)) (stack (ensure_root st))"
  by (simp add: ensure_root_def)

lemma parse_line_ok:
  assumes "frames_ok (heap st) (stack st)" and "parse_line ts s st = Inr st'"
  shows "frames_ok (heap st') (stack st')"
proof -
  from assms(2) obtain prev st1 where
    r: "run_matches s (ptokens ts s) 0 (ensure_root st) = Inr (prev, st1)"
    and f: "(if prev \<noteq> length s then add_to_current (CStr (drop prev s)) st1 else Inr st1) = Inr st'"
    by (auto simp: parse_line_def parse_line_with_def split: sum.splits)
  from run_matches_ok [OF ensure_root_ok [OF assms(1)] r] f show ?thesis
    by (auto split: if_splits intro: add_to_current_ok)
qed

lemma parse_lines_ok:
  assumes "frames_ok (heap st) (stack st)" and "parse_lines ts ls st = Inr st'"
  shows "frames_ok (heap st') (stack st')"
  using assms
  by (induction ls arbitrary: st) (auto split: sum.splits intro: parse_line_ok)

text \<open>
  Inside an \<open>If\<close> with a true value and no false one, an \<open>Else\<close> (with or
  without an opening brace) switches the \<open>If\<close> to its false bucket and is not pushed:
  \<open>add_content\<close> returns \<open>False\<close>. The \<open>If\<close> stays the current frame, so
  the content that follows goes to its false bucket
  (\<open>if_content_goes_to_current_bucket\<close>) and the close marker pops the \<open>If\<close>.
\<close>

lemma else_is_not_pushed:
  assumes "stack st = Fn a # rest" and "a < length (heap st)"
    and "kind (heap st ! a) = IfBlockFunction"
    and "if_true_content (heap st ! a) \<noteq> []" and "if_false_content (heap st ! a) = []"
  shows "handle_func ''Else'' (Inr ps) func_open st =
           Inr (st\<lparr>heap := (heap st)[a := switch_to_false (heap st ! a)]
                              @ [new_function ''Else'' ps]\<rparr>)"
  using assms
  by (simp add: handle_func_def validate_def Let_def new_function_def function_class_def
      is_if_frame_def nth_append add_content_def list_update_append)

text \<open>
  C10. Every stack the parser ever has is of that shape: no \<open>ElseBlockFunction\<close> is
  ever on it, and everything above the root is a function object. \<open>st0\<close> is the state
  after any lines \<open>ls\<close> of any input, and \<open>st\<close> the state after any matches
  \<open>ms\<close> in the line that follows, so \<open>st\<close> ranges over the states between two
  tokens as well as those between two lines.
\<close>

theorem else_never_on_stack:
  assumes "parse_lines ts ls empty_state = Inr st0"
    and "run_matches s ms 0 (ensure_root st0) = Inr (prev, st)"
  shows "frames_ok (heap st) (stack st)"
proof -
  have "frames_ok (heap empty_state) (stack empty_state)"
    by (simp add: empty_state_def)
  from parse_lines_ok [OF this assms(1)] have "frames_ok (heap st0) (stack st0)" .
  from run_matches_ok [OF ensure_root_ok [OF this] assms(2)] show ?thesis .
qed

theorem else_never_on_stack_witness:
  "parse_lines plain_state [''<% If (a) { %>\<newline>'', ''x\<newline>''] empty_state
     = Inr \<lparr>heap = [Obj IfBlockFunction ''If'' [Str ''a''] [] 1 False [CStr ''x\<newline>''] [] IfTrue],
            root_contents = [CObj 0], stack = [Fn 0, Root]\<rparr> \<and>
   run_matches ''<% Else { %>\<newline>'' (ptokens plain_state ''<% Else { %>\<newline>'') 0
       (ensure_root \<lparr>heap = [Obj IfBlockFunction ''If'' [Str ''a''] [] 1 False [CStr ''x\<newline>''] [] IfTrue],
            root_contents = [CObj 0], stack = [Fn 0, Root]\<rparr>)
     = Inr (13, \<lparr>heap = [Obj IfBlockFunction ''If'' [Str ''a''] [] 1 False [CStr ''x\<newline>''] [] IfFalse,
                         Obj ElseBlockFunction ''Else'' [] [] 1 False [] [] IfTrue],
                 root_contents = [CObj 0], stack = [Fn 0, Root]\<rparr>) \<and>
   frames_ok [Obj IfBlockFunction ''If'' [Str ''a''] [] 1 False [CStr ''x\<newline>''] [] IfFalse,
              Obj ElseBlockFunction ''Else'' [] [] 1 False [] [] IfTrue] [Fn 0, Root]"
proof -
  have a: "parse_lines plain_state [''<% If (a) { %>\<newline>'', ''x\<newline>''] empty_state
     = Inr \<lparr>heap = [Obj IfBlockFunction ''If'' [Str ''a''] [] 1 False [CStr ''x\<newline>''] [] IfTrue],
            root_contents = [CObj 0], stack = [Fn 0, Root]\<rparr>"
    by (simp add: ptokens_def fi_if_a fi_x parse_tok_def parse_params_def parse_value_text fi_a
        machine_defs)
  have b: "run_matches ''<% Else { %>\<newline>'' (ptokens plain_state ''<% Else { %>\<newline>'') 0
       (ensure_root \<lparr>heap = [Obj IfBlockFunction ''If'' [Str ''a''] [] 1 False [CStr ''x\<newline>''] [] IfTrue],
            root_contents = [CObj 0], stack = [Fn 0, Root]\<rparr>)
     = Inr (13, \<lparr>heap = [Obj IfBlockFunction ''If'' [Str ''a''] [] 1 False [CStr ''x\<newline>''] [] IfFalse,
                         Obj ElseBlockFunction ''Else'' [] [] 1 False [] [] IfTrue],
                 root_contents = [CObj 0], stack = [Fn 0, Root]\<rparr>)"
    by (simp add: ptokens_def fi_else parse_tok_def parse_params_def machine_defs)
  from else_never_on_stack [OF a b] a b show ?thesis by simp
qed

section \<open>Chains of If, ElseIf and Else\<close>

text \<open>
  One step of a chain. An \<open>ElseIf\<close> added to an \<open>If\<close> frame that has a true value
  and no false one is rewritten in place: its name becomes \<open>If\<close>, its
  \<open>pop_count\<close> the frame's plus one, and it is the false bucket of the frame. A close
  marker pops as many frames as the \<open>pop_count\<close> of the current one.
\<close>

lemma elseif_rewritten_in_place:
  assumes "kind (heap st ! a) = IfBlockFunction" and "a < length (heap st)"
    and "b < length (heap st)" and "a \<noteq> b"
    and "func_name (heap st ! b) = ''ElseIf''"
    and "if_true_content (heap st ! a) \<noteq> []" and "if_false_content (heap st ! a) = []"
  shows "\<exists>st'. add_content (Fn a) (CObj b) st = Inr (st', True) \<and>
           stack st' = stack st \<and>
           heap st' ! b = become_if (Suc (pop_count (heap st ! a))) (heap st ! b) \<and>
           func_name (heap st' ! b) = ''If'' \<and>
           pop_count (heap st' ! b) = Suc (pop_count (heap st ! a)) \<and>
           is_elseif (heap st' ! b) \<and>
           if_false_content (heap st' ! a) = [CObj b] \<and>
           cur_content (heap st' ! a) = IfFalse"
  using assms
  by (simp add: add_content_def Let_def switch_to_false_def become_if_def append_cur_def)


text \<open>The depth of the \<open>Fn::If\<close> nesting of a value.\<close>

fun if_depth :: "value \<Rightarrow> nat" where
  "if_depth (Dict [(k, List lk xs)]) =
     (if k = ''Fn::If'' then Suc (foldr max (map if_depth xs) 0) else 0)"
| "if_depth v = 0"

definition flat :: "value list \<Rightarrow> bool" where
  "flat xs = list_all (\<lambda>v. if_depth v = 0) xs"


lemma flat_append [simp]: "flat (xs @ ys) = (flat xs \<and> flat ys)"
  by (simp add: flat_def)

subsection \<open>The pop counts of the frames\<close>


text \<open>
  The chain at the top of a stack, from the current frame down: the rewritten
  \<open>ElseIf\<close> objects and the object under them, which is the \<open>If\<close> that opened
  the chain (or another block, when the current frame is no \<open>ElseIf\<close>).
\<close>

fun chain_frames :: "obj list \<Rightarrow> frame list \<Rightarrow> nat list" where
  "chain_frames h (Fn a # fs) = (if is_elseif (h ! a) then a # chain_frames h fs else [a])"
| "chain_frames h fs = []"





definition same_shape :: "obj \<Rightarrow> obj \<Rightarrow> bool" where
  "same_shape x y =
     (kind y = kind x \<and> func_name y = func_name x \<and> pop_count y = pop_count x \<and>
      is_elseif y = is_elseif x)"


lemma same_shape_simps [simp]:
  "same_shape x x"
  "same_shape x (append_contents c x)"
  "same_shape x (append_cur c x)"
  "same_shape x (switch_to_false x)"
  "same_shape x (append_cur c (switch_to_false x))"
  by (simp_all add: same_shape_def append_contents_def append_cur_def switch_to_false_def
      split: bucket.splits)















subsection \<open>The chain on top of the stack\<close>


lemma chain_frames_top: "chain_frames h (Fn a # fs) \<noteq> [] \<and> hd (chain_frames h (Fn a # fs)) = a"
  by simp










lemma fi_c: "finditer ''c'' = []"
  by code_simp

lemma fi_elseif_b: "finditer ''<% ElseIf (b) { %>\<newline>'' =
    [\<lparr>m_start = 0, m_end = 19, m_tok = TFunc ''ElseIf'' (Some ''b'') True\<rparr>]"
  by code_simp

lemma fi_elseif_c: "finditer ''<% ElseIf (c) { %>\<newline>'' =
    [\<lparr>m_start = 0, m_end = 19, m_tok = TFunc ''ElseIf'' (Some ''c'') True\<rparr>]"
  by code_simp

lemma fi_value1: "finditer ''value1\<newline>'' = []"
  by code_simp

lemma fi_value2: "finditer ''value2\<newline>'' = []"
  by code_simp

lemma fi_value3: "finditer ''value3\<newline>'' = []"
  by code_simp

lemma fi_value4: "finditer ''value4\<newline>'' = []"
  by code_simp

lemmas chain_lexing = ptokens_def parse_tok_def parse_params_def parse_value_text
  fi_a fi_b fi_c fi_if_a fi_elseif_b fi_elseif_c fi_else fi_close
  fi_value1 fi_value2 fi_value3 fi_value4









text \<open>The chain of \<open>test_embed_funcs_with_if_elseif_elseif_else\<close>, and its expected value.\<close>


lemma test_embed_funcs_with_if_elseif_elseif_else:
  "parse_string plain_state
     ''<% If (a) { %>\<newline>value1\<newline><% ElseIf (b) { %>\<newline>value2\<newline><% ElseIf (c) { %>\<newline>value3\<newline><% Else { %>\<newline>value4\<newline><% } %>''
   = Inr (Dict [(''Fn::If'', List UncollapsibleList
            [Str ''a'', Str ''value1\<newline>'',
             Dict [(''Fn::If'', List UncollapsibleList
               [Str ''b'', Str ''value2\<newline>'',
                Dict [(''Fn::If'', List UncollapsibleList
                  [Str ''c'', Str ''value3\<newline>'', Str ''value4\<newline>''])]])]])])"
proof -
  have sl: "splitlines ''<% If (a) { %>\<newline>value1\<newline><% ElseIf (b) { %>\<newline>value2\<newline><% ElseIf (c) { %>\<newline>value3\<newline><% Else { %>\<newline>value4\<newline><% } %>''
    = [''<% If (a) { %>\<newline>'', ''value1\<newline>'', ''<% ElseIf (b) { %>\<newline>'', ''value2\<newline>'',
         ''<% ElseIf (c) { %>\<newline>'', ''value3\<newline>'', ''<% Else { %>\<newline>'', ''value4\<newline>'', ''<% } %>'']"
    by code_simp
  have st: "strip ''<% If (a) { %>\<newline>'' \<noteq> ''__base64__''"
    by code_simp
  have pl: "parse_lines plain_state [''<% If (a) { %>\<newline>'', ''value1\<newline>'', ''<% ElseIf (b) { %>\<newline>'', ''value2\<newline>'',
         ''<% ElseIf (c) { %>\<newline>'', ''value3\<newline>'', ''<% Else { %>\<newline>'', ''value4\<newline>'', ''<% } %>''] empty_state
    = Inr \<lparr>heap = [Obj IfBlockFunction ''If'' [Str ''a''] [] 1 False [CStr ''value1\<newline>''] [CObj 1] IfFalse,
                  Obj IfBlockFunction ''If'' [Str ''b''] [] 2 True [CStr ''value2\<newline>''] [CObj 2] IfFalse,
                  Obj IfBlockFunction ''If'' [Str ''c''] [] 3 True [CStr ''value3\<newline>''] [CStr ''value4\<newline>''] IfFalse,
                  Obj ElseBlockFunction ''Else'' [] [] 1 False [] [] IfTrue],
           root_contents = [CObj 0], stack = [Root]\<rparr>"
    by (simp add: chain_lexing machine_defs)
  show ?thesis
    apply (simp only: parse_string_def sl list.case st Let_def if_False pl sum.case)
    apply (simp add: normalize_frame_def serialize_if normalize_list_def plain_state_def
        if_contents_def)
    done
qed

section \<open>The compiler driver\<close>

text \<open>
  \<open>compiler.py\<close>. A Python dictionary is a list of entries with distinct keys, in the
  order of insertion: an assignment to a key that is there keeps its place.
\<close>

fun dict_set :: "string \<Rightarrow> 'v \<Rightarrow> (string \<times> 'v) list \<Rightarrow> (string \<times> 'v) list" where
  "dict_set k v [] = [(k, v)]"
| "dict_set k v ((k', v') # d) =
     (if k' = k then (k, v) # d else (k', v') # dict_set k v d)"

definition dict_del :: "string \<Rightarrow> (string \<times> 'v) list \<Rightarrow> (string \<times> 'v) list" where
  "dict_del k d = filter (\<lambda>(k', v). k' \<noteq> k) d"

text \<open>\<open>d.update(new)\<close> and \<open>d.pop(k, default)\<close>.\<close>

definition dict_update :: "(string \<times> 'v) list \<Rightarrow> (string \<times> 'v) list \<Rightarrow> (string \<times> 'v) list" where
  "dict_update d new = fold (\<lambda>(k, v). dict_set k v) new d"

definition dict_pop ::
  "string \<Rightarrow> value \<Rightarrow> (string \<times> value) list \<Rightarrow> value \<times> (string \<times> value) list" where
  "dict_pop k dflt d = (case map_of d k of None \<Rightarrow> (dflt, d) | Some v \<Rightarrow> (v, dict_del k d))"

text \<open>\<open>s.lower()\<close> on code points below 256.\<close>

definition lower_char :: "char \<Rightarrow> char" where
  "lower_char c =
     (let n = (of_char c :: nat)
      in if (65 \<le> n \<and> n \<le> 90) \<or> (192 \<le> n \<and> n \<le> 222 \<and> n \<noteq> 215)
         then char_of (n + 32) else c)"

definition lower :: "string \<Rightarrow> string" where
  "lower s = map lower_char s"

text \<open>\<open>sub in s\<close> for two strings.\<close>

fun contains :: "string \<Rightarrow> string \<Rightarrow> bool" where
  "contains [] sub = (sub = [])"
| "contains (c # cs) sub = (take (length sub) (c # cs) = sub \<or> contains cs sub)"

text \<open>
  \<open>key in x\<close> for a string \<open>key\<close>: the keys of a dictionary, the elements of a list,
  the substrings of a string; \<open>None\<close> and the objects are not iterable.
\<close>

definition py_in :: "string \<Rightarrow> value \<Rightarrow> error + bool" where
  "py_in key x =
     (case x of
        Dict d \<Rightarrow> Inr (key \<in> fst ` set d)
      | List k xs \<Rightarrow> Inr (Str key \<in> set xs)
      | Str s \<Rightarrow> Inr (contains s key)
      | _ \<Rightarrow> Inl TypeError)"

text \<open>\<open>x[key]\<close> for a string \<open>key\<close>, where \<open>key in x\<close> holds.\<close>

definition py_item :: "value \<Rightarrow> string \<Rightarrow> error + value" where
  "py_item x key =
     (case x of
        Dict d \<Rightarrow> (case map_of d key of Some v \<Rightarrow> Inr v | None \<Rightarrow> Inl KeyError)
      | _ \<Rightarrow> Inl TypeError)"

text \<open>
  The \<open>Meta\<close> section: a mapping of scalars, which the reader hands over as strings
  (\<open>test_norm_int\<close>). \<open>None\<close> is a key that is absent.
\<close>

record meta =
  m_name :: "string option"
  m_description :: "string option"
  m_version :: "string option"

text \<open>
  The reader (\<open>cloudpuff.templates.reader\<close>) is not among the sources. The compiler reads
  three things from it, which are parameters of the model: \<open>reader.doc['Meta']\<close>, the
  other entries of \<open>reader.doc\<close>, and what the two calls of
  \<open>template_state.process_tree\<close> make of the Conditions and the Resources, with the
  \<open>if_conditions\<close> they leave.
\<close>

record reader =
  r_meta :: "meta option"
  r_doc :: "(string \<times> value) list"
  r_process_trees :: "value \<Rightarrow> value \<Rightarrow> value \<times> value \<times> (string \<times> value) list"

record ami_output =
  resource_name :: string
  previous_ami_key :: string
  instance_id_key :: string
  name_format_key :: string

record compiler =
  for_amis :: bool
  doc :: "(string \<times> value) list"
  cmeta :: "meta option"
  ami_outputs :: "ami_output list"
  stack_param_lookups :: "(string \<times> value) list"
  required_params :: "(string \<times> bool) list"

text \<open>\<open>TemplateCompiler(for_amis)\<close>\<close>

definition new_compiler :: "bool \<Rightarrow> compiler" where
  "new_compiler fa =
     \<lparr>for_amis = fa, doc = [], cmeta = None, ami_outputs = [], stack_param_lookups = [],
      required_params = []\<rparr>"

definition SECTIONS :: "string list" where
  "SECTIONS = [''Parameters'', ''Mappings'', ''Conditions'', ''Resources'', ''Outputs'']"

subsection \<open>\_post\_process\_params\<close>

text \<open>
  One parameter: \<open>param.pop('LookupFromStack', None)\<close>, then
  \<open>param.pop('Required', 'true').lower() == 'true'\<close>. Only a dictionary has this
  \<open>pop\<close>, only a string has \<open>lower\<close>.
\<close>

definition post_process_param :: "value \<Rightarrow> error + (value \<times> value \<times> bool)" where
  "post_process_param param =
     (case param of
        Dict p \<Rightarrow>
          (case dict_pop ''LookupFromStack'' NoneV p of
             (lookup_from_stack, p1) \<Rightarrow>
               (case dict_pop ''Required'' (Str ''true'') p1 of
                  (required, p2) \<Rightarrow>
                    (case required of
                       Str s \<Rightarrow> Inr (Dict p2, lookup_from_stack, lower s = ''true'')
                     | _ \<Rightarrow> Inl AttributeError)))
      | List k xs \<Rightarrow> Inl TypeError
      | _ \<Rightarrow> Inl AttributeError)"

fun post_process_loop ::
  "(string \<times> value) list \<Rightarrow> (string \<times> value) list \<Rightarrow> (string \<times> bool) list
     \<Rightarrow> error + ((string \<times> value) list \<times> (string \<times> value) list \<times> (string \<times> bool) list)" where
  "post_process_loop [] lookups required = Inr ([], lookups, required)"
| "post_process_loop ((param_name, param) # rest) lookups required =
     (case post_process_param param of
        Inl e \<Rightarrow> Inl e
      | Inr (param', lookup_from_stack, req) \<Rightarrow>
          (case post_process_loop rest
                  (if truthy lookup_from_stack
                   then dict_set param_name lookup_from_stack lookups else lookups)
                  (dict_set param_name req required) of
             Inl e \<Rightarrow> Inl e
           | Inr (rest', lookups', required') \<Rightarrow>
               Inr ((param_name, param') # rest', lookups', required')))"

definition post_process_params :: "compiler \<Rightarrow> error + compiler" where
  "post_process_params c =
     (case map_of (doc c) ''Parameters'' of
        None \<Rightarrow> Inl KeyError
      | Some (Dict ps) \<Rightarrow>
          (case post_process_loop ps (stack_param_lookups c) (required_params c) of
             Inl e \<Rightarrow> Inl e
           | Inr (ps', lookups', required') \<Rightarrow>
               Inr (c\<lparr>doc := dict_set ''Parameters'' (Dict ps') (doc c),
                      stack_param_lookups := lookups', required_params := required'\<rparr>))
      | Some _ \<Rightarrow> Inl AttributeError)"

subsection \<open>\_scan\_cloudpuff\_metadata\<close>

record ami_info =
  ai_name_format :: "value"
  ai_resource_name :: string
  ai_previous_ami :: "value option"

text \<open>
  The first loop, for one resource: \<open>None\<close> is \<open>continue\<close> or a resource without
  \<open>AMINameFormat\<close>.
\<close>

definition scan_resource :: "string \<Rightarrow> value \<Rightarrow> error + ami_info option" where
  "scan_resource name resource =
     (case resource of
        Dict r \<Rightarrow>
          if map_of r ''Type'' \<noteq> Some (Str ''AWS::EC2::Instance'') then Inr None
          else
            (let md = (case map_of r ''Metadata'' of Some m \<Rightarrow> m | None \<Rightarrow> Dict []) in
             case py_in ''CloudPuff'' md of
               Inl e \<Rightarrow> Inl e
             | Inr False \<Rightarrow> Inr None
             | Inr True \<Rightarrow>
                 (case py_item md ''CloudPuff'' of
                    Inl e \<Rightarrow> Inl e
                  | Inr metadata \<Rightarrow>
                      (case py_in ''AMINameFormat'' metadata of
                         Inl e \<Rightarrow> Inl e
                       | Inr False \<Rightarrow> Inr None
                       | Inr True \<Rightarrow>
                           (case py_item metadata ''AMINameFormat'' of
                              Inl e \<Rightarrow> Inl e
                            | Inr nf \<Rightarrow>
                                (case py_item metadata ''PreviousAMI'' of
                                   Inr prev \<Rightarrow>
                                     Inr (Some \<lparr>ai_name_format = nf, ai_resource_name = name,
                                                ai_previous_ami = Some prev\<rparr>)
                                 | Inl e \<Rightarrow>
                                     Inr (Some \<lparr>ai_name_format = nf, ai_resource_name = name,
                                                ai_previous_ami = None\<rparr>))))))
      | _ \<Rightarrow> Inr None)"

fun scan_resources :: "(string \<times> value) list \<Rightarrow> error + ami_info list" where
  "scan_resources [] = Inr []"
| "scan_resources ((name, resource) # rest) =
     (case scan_resource name resource of
        Inl e \<Rightarrow> Inl e
      | Inr found \<Rightarrow>
          (case scan_resources rest of
             Inl e \<Rightarrow> Inl e
           | Inr infos \<Rightarrow> Inr (case found of None \<Rightarrow> infos | Some i \<Rightarrow> i # infos)))"

definition key_of :: "string \<Rightarrow> string \<Rightarrow> string" where
  "key_of name what = ''CloudPuff'' @ name @ what"

definition output_entry :: "string \<Rightarrow> value \<Rightarrow> value" where
  "output_entry description v = Dict [(''Description'', Str description), (''Value'', v)]"

text \<open>
  The second loop, for one resource. \<open>outputs\<close> is a plain dictionary, which has no
  order in Python 2; the model keeps the order of insertion.
\<close>

definition add_ami_outputs ::
  "ami_info \<Rightarrow> (string \<times> value) list \<times> ami_output list \<Rightarrow> (string \<times> value) list \<times> ami_output list" where
  "add_ami_outputs m acc =
     (case acc of
        (outputs, recorded) \<Rightarrow>
          (let name = ai_resource_name m;
               previous_ami_key = key_of name ''PreviousAMI'';
               instance_id_key = key_of name ''InstanceID'';
               name_format_key = key_of name ''AMINameFormat'';
               o1 = dict_set instance_id_key
                      (output_entry (''Instance ID for '' @ name) (Dict [(''Ref'', Str name)])) outputs;
               o2 = dict_set name_format_key
                      (output_entry (''Name format for the AMI for '' @ name) (ai_name_format m)) o1;
               o3 = (case ai_previous_ami m of
                       None \<Rightarrow> o2
                     | Some prev \<Rightarrow>
                         dict_set previous_ami_key
                           (output_entry (''Previous AMI ID created for '' @ name) prev) o2)
           in (o3,
               recorded @ [\<lparr>resource_name = name, previous_ami_key = previous_ami_key,
                            instance_id_key = instance_id_key,
                            name_format_key = name_format_key\<rparr>])))"

definition scan_cloudpuff_metadata :: "compiler \<Rightarrow> error + compiler" where
  "scan_cloudpuff_metadata c =
     (case map_of (doc c) ''Resources'' of
        None \<Rightarrow> Inl KeyError
      | Some (Dict rs) \<Rightarrow>
          (case scan_resources rs of
             Inl e \<Rightarrow> Inl e
           | Inr ami_metadata \<Rightarrow>
               if ami_metadata \<noteq> [] \<and> for_amis c
               then
                 (case fold add_ami_outputs ami_metadata ([], ami_outputs c) of
                    (outputs, recorded) \<Rightarrow>
                      (case map_of (doc c) ''Outputs'' of
                         Some (Dict os) \<Rightarrow>
                           Inr (c\<lparr>doc := dict_set ''Outputs'' (Dict (dict_update os outputs)) (doc c),
                                  ami_outputs := recorded\<rparr>)
                       | Some _ \<Rightarrow> Inl AttributeError
                       | None \<Rightarrow>
                           Inr (c\<lparr>doc := dict_set ''Outputs'' (Dict (dict_update [] outputs)) (doc c),
                                  ami_outputs := recorded\<rparr>)))
               else Inr c)
      | Some _ \<Rightarrow> Inl AttributeError)"

subsection \<open>load\_string\<close>

text \<open>The last loop: \<open>if not self.doc[section]: del self.doc[section]\<close>.\<close>

fun drop_empty :: "string list \<Rightarrow> (string \<times> value) list \<Rightarrow> error + (string \<times> value) list" where
  "drop_empty [] d = Inr d"
| "drop_empty (section # rest) d =
     (case map_of d section of
        None \<Rightarrow> Inl KeyError
      | Some v \<Rightarrow> drop_empty rest (if truthy v then d else dict_del section d))"

definition section_of :: "reader \<Rightarrow> string \<Rightarrow> value" where
  "section_of r section = (case map_of (r_doc r) section of Some v \<Rightarrow> v | None \<Rightarrow> Dict [])"

definition load_string :: "reader \<Rightarrow> string option \<Rightarrow> compiler \<Rightarrow> error + compiler" where
  "load_string r stack_name c =
     (case r_meta r of
        None \<Rightarrow> Inl KeyError
      | Some m \<Rightarrow>
          (let m' = m\<lparr>m_name := (case m_name m of None \<Rightarrow> stack_name | Some n \<Rightarrow> Some n)\<rparr>;
               d0 = [(''AWSTemplateFormatVersion'', Str ''2010-09-09'')];
               d1 = (case m_description m of
                       None \<Rightarrow> d0
                     | Some description \<Rightarrow>
                         dict_set ''Description''
                           (Str (case m_version m of
                                   None \<Rightarrow> description
                                 | Some v \<Rightarrow> description @ '' [v'' @ v @ '']'')) d0);
               d2 = fold (\<lambda>section. dict_set section (section_of r section)) SECTIONS d1
           in case r_process_trees r (section_of r ''Conditions'') (section_of r ''Resources'') of
                (conditions, resources, if_conditions) \<Rightarrow>
                  (let d3 = dict_set ''Resources'' resources (dict_set ''Conditions'' conditions d2) in
                   case (if if_conditions = [] then Inr d3
                         else (case conditions of
                                 Dict cd \<Rightarrow>
                                   Inr (dict_set ''Conditions'' (Dict (dict_update cd if_conditions)) d3)
                               | _ \<Rightarrow> Inl AttributeError)) of
                     Inl e \<Rightarrow> Inl e
                   | Inr d4 \<Rightarrow>
                       (case post_process_params (c\<lparr>doc := d4, cmeta := Some m'\<rparr>) of
                          Inl e \<Rightarrow> Inl e
                        | Inr c1 \<Rightarrow>
                            (case scan_cloudpuff_metadata c1 of
                               Inl e \<Rightarrow> Inl e
                             | Inr c2 \<Rightarrow>
                                 (case drop_empty SECTIONS (doc c2) of
                                    Inl e \<Rightarrow> Inl e
                                  | Inr d5 \<Rightarrow> Inr (c2\<lparr>doc := d5\<rparr>)))))))"

section \<open>Dictionaries as lists of entries\<close>

lemma map_of_dict_set: "map_of (dict_set k v d) = (map_of d)(k \<mapsto> v)"
  by (induction d) (auto simp: fun_eq_iff)

lemma map_of_dict_del: "map_of (dict_del k d) k' = (if k' = k then None else map_of d k')"
  by (induction d) (auto simp: dict_del_def)

lemma dict_del_absent: "map_of d k = None \<Longrightarrow> dict_del k d = d"
  by (induction d) (auto simp: dict_del_def split: if_splits)

lemma dict_pop_eq:
  "dict_pop k dflt d = ((case map_of d k of None \<Rightarrow> dflt | Some v \<Rightarrow> v), dict_del k d)"
  by (simp add: dict_pop_def dict_del_absent split: option.splits)

lemma keys_dict_del: "fst ` set (dict_del k d) = fst ` set d - {k}"
  by (auto simp: dict_del_def image_iff)

lemma dict_update_at:
  "distinct (map fst new) \<Longrightarrow>
   map_of (dict_update d new) k = (case map_of new k of Some v \<Rightarrow> Some v | None \<Rightarrow> map_of d k)"
proof (induction new arbitrary: d)
  case Nil show ?case by (simp add: dict_update_def)
next
  case (Cons a new)
  obtain k0 v0 where a: "a = (k0, v0)" by (cases a)
  from Cons.prems have d: "distinct (map fst new)" and k0: "k0 \<notin> fst ` set new" by (auto simp: a)
  have "dict_update d (a # new) = dict_update (dict_set k0 v0 d) new"
    by (simp add: dict_update_def a)
  moreover from k0 have "map_of new k0 = None" by (simp add: map_of_eq_None_iff)
  ultimately show ?case using Cons.IH [OF d, of "dict_set k0 v0 d"]
    by (auto simp: a map_of_dict_set split: option.splits)
qed

lemma keys_dict_set: "fst ` set (dict_set k v d) = insert k (fst ` set d)"
  by (simp add: dom_map_of_conv_image_fst [symmetric] map_of_dict_set)

lemma distinct_dict_set: "distinct (map fst d) \<Longrightarrow> distinct (map fst (dict_set k v d))"
proof (induction d)
  case Nil show ?case by simp
next
  case (Cons a d)
  then show ?case using keys_dict_set [of k v d] by (cases a) auto
qed

lemma dict_set_same: "map_of d k = Some v \<Longrightarrow> dict_set k v d = d"
  by (induction d) (auto split: if_splits)

lemma map_of_append_absent: "k \<notin> fst ` set d1 \<Longrightarrow> map_of (d1 @ xs) k = map_of xs k"
proof -
  assume "k \<notin> fst ` set d1"
  then have "map_of d1 k = None" by (simp add: map_of_eq_None_iff)
  then show ?thesis by (simp add: map_add_def)
qed

lemma dict_del_append_absent: "k \<notin> fst ` set d1 \<Longrightarrow> dict_del k (d1 @ xs) = d1 @ dict_del k xs"
  by (induction d1) (auto simp: dict_del_def)

lemma dict_set_append_absent:
  "k \<notin> fst ` set d1 \<Longrightarrow> dict_set k v (d1 @ xs) = d1 @ dict_set k v xs"
  by (induction d1) auto

section \<open>What the compiler takes out of the parameters\<close>

text \<open>
  What \<open>_post_process_params\<close> reads in a parameter \<open>p\<close>, and what it leaves of it.
\<close>

definition lookup_of :: "(string \<times> value) list \<Rightarrow> value" where
  "lookup_of p = (case map_of p ''LookupFromStack'' of None \<Rightarrow> NoneV | Some v \<Rightarrow> v)"

definition required_of :: "(string \<times> value) list \<Rightarrow> value" where
  "required_of p = (case map_of p ''Required'' of None \<Rightarrow> Str ''true'' | Some v \<Rightarrow> v)"

definition cleaned :: "(string \<times> value) list \<Rightarrow> (string \<times> value) list" where
  "cleaned p = dict_del ''Required'' (dict_del ''LookupFromStack'' p)"

text \<open>
  The parameters that the loop reads without an error: mappings whose \<open>Required\<close>, if
  there is one, is a string.
\<close>

fun is_str :: "value \<Rightarrow> bool" where
  "is_str (Str s) = True"
| "is_str _ = False"

fun str_of :: "value \<Rightarrow> string" where
  "str_of (Str s) = s"
| "str_of _ = []"

fun wf_param :: "value \<Rightarrow> bool" where
  "wf_param (Dict p) = is_str (required_of p)"
| "wf_param _ = False"

lemma post_process_param_dict:
  "is_str (required_of p) \<Longrightarrow>
   post_process_param (Dict p) =
     Inr (Dict (cleaned p), lookup_of p, lower (str_of (required_of p)) = ''true'')"
  by (cases "required_of p")
     (auto simp: post_process_param_def dict_pop_eq map_of_dict_del required_of_def lookup_of_def cleaned_def)

fun clean_param :: "string \<times> value \<Rightarrow> string \<times> value" where
  "clean_param (n, Dict p) = (n, Dict (cleaned p))"
| "clean_param (n, v) = (n, v)"

fun lookup_step :: "string \<times> value \<Rightarrow> (string \<times> value) list \<Rightarrow> (string \<times> value) list" where
  "lookup_step (n, Dict p) L = (if truthy (lookup_of p) then dict_set n (lookup_of p) L else L)"
| "lookup_step (n, v) L = L"

fun required_step :: "string \<times> value \<Rightarrow> (string \<times> bool) list \<Rightarrow> (string \<times> bool) list" where
  "required_step (n, Dict p) R = dict_set n (lower (str_of (required_of p)) = ''true'') R"
| "required_step (n, v) R = R"

lemma post_process_loop_eq:
  "list_all wf_param (map snd ps) \<Longrightarrow>
   post_process_loop ps L R = Inr (map clean_param ps, fold lookup_step ps L, fold required_step ps R)"
proof (induction ps arbitrary: L R)
  case Nil
  show ?case by simp
next
  case (Cons a ps)
  obtain n v where a: "a = (n, v)" by (cases a)
  from Cons.prems a obtain p where v: "v = Dict p" and r: "is_str (required_of p)"
    by (cases v) auto
  from Cons.prems have rest: "list_all wf_param (map snd ps)" by simp
  show ?case
    by (simp add: a v post_process_param_dict [OF r] Cons.IH [OF rest])
qed

lemma fold_lookup_other:
  "n \<notin> fst ` set ps \<Longrightarrow> map_of (fold lookup_step ps L) n = map_of L n"
proof (induction ps arbitrary: L)
  case Nil show ?case by simp
next
  case (Cons a ps)
  obtain m v where a: "a = (m, v)" by (cases a)
  from Cons.prems a have "m \<noteq> n" "n \<notin> fst ` set ps" by auto
  then show ?case using Cons.IH [of "lookup_step a L"]
    by (cases v) (auto simp: a map_of_dict_set)
qed

lemma fold_required_other:
  "n \<notin> fst ` set ps \<Longrightarrow> map_of (fold required_step ps R) n = map_of R n"
proof (induction ps arbitrary: R)
  case Nil show ?case by simp
next
  case (Cons a ps)
  obtain m v where a: "a = (m, v)" by (cases a)
  from Cons.prems a have "m \<noteq> n" "n \<notin> fst ` set ps" by auto
  then show ?case using Cons.IH [of "required_step a R"]
    by (cases v) (auto simp: a map_of_dict_set)
qed

lemma fold_lookup_at:
  "distinct (map fst ps) \<Longrightarrow> (n, Dict p) \<in> set ps \<Longrightarrow>
   map_of (fold lookup_step ps L) n =
     (if truthy (lookup_of p) then Some (lookup_of p) else map_of L n)"
proof (induction ps arbitrary: L)
  case Nil then show ?case by simp
next
  case (Cons a ps)
  show ?case
  proof (cases "a = (n, Dict p)")
    case True
    with Cons.prems have "n \<notin> fst ` set ps" by auto
    then show ?thesis by (simp add: True fold_lookup_other map_of_dict_set)
  next
    case False
    with Cons.prems have "(n, Dict p) \<in> set ps" "distinct (map fst ps)" by auto
    moreover from this Cons.prems have "fst a \<noteq> n" by (auto simp: image_iff)
    ultimately show ?thesis using Cons.IH [of "lookup_step a L"]
      by (cases a; cases "snd a") (auto simp: map_of_dict_set)
  qed
qed

lemma fold_required_at:
  "distinct (map fst ps) \<Longrightarrow> (n, Dict p) \<in> set ps \<Longrightarrow>
   map_of (fold required_step ps R) n = Some (lower (str_of (required_of p)) = ''true'')"
proof (induction ps arbitrary: R)
  case Nil then show ?case by simp
next
  case (Cons a ps)
  show ?case
  proof (cases "a = (n, Dict p)")
    case True
    with Cons.prems have "n \<notin> fst ` set ps" by auto
    then show ?thesis by (simp add: True fold_required_other map_of_dict_set)
  next
    case False
    with Cons.prems have "(n, Dict p) \<in> set ps" "distinct (map fst ps)" by auto
    then show ?thesis using Cons.IH [of "required_step a R"] by simp
  qed
qed

lemma clean_param_at:
  "distinct (map fst ps) \<Longrightarrow> (n, Dict p) \<in> set ps \<Longrightarrow>
   map_of (map clean_param ps) n = Some (Dict (cleaned p))"
proof (induction ps)
  case Nil then show ?case by simp
next
  case (Cons a ps)
  show ?case
  proof (cases "a = (n, Dict p)")
    case True then show ?thesis by simp
  next
    case False
    with Cons.prems have in_ps: "(n, Dict p) \<in> set ps" "distinct (map fst ps)" by auto
    moreover from this Cons.prems have "fst a \<noteq> n" by (auto simp: image_iff)
    ultimately show ?thesis using Cons.IH
      by (cases a; cases "snd a") auto
  qed
qed

lemma parameter_not_a_mapping:
  "post_process_param (Str s) = Inl AttributeError"
  "post_process_param NoneV = Inl AttributeError"
  "post_process_param (List k xs) = Inl TypeError"
  by (simp_all add: post_process_param_def)

lemma required_not_a_string:
  "map_of p ''Required'' = Some (Dict d) \<Longrightarrow> post_process_param (Dict p) = Inl AttributeError"
  by (simp add: post_process_param_def dict_pop_eq map_of_dict_del)

lemma lower_true: "lower ''true'' = ''true''"
  by code_simp

lemma lower_False: "lower ''False'' = ''false''"
  by code_simp

text \<open>
  C7, as the code has it. For every parameter \<open>n\<close> of the Parameters section, a mapping
  \<open>p\<close>: \<open>_post_process_params\<close> returns, the parameter is \<open>p\<close> without its
  \<open>LookupFromStack\<close> and \<open>Required\<close> entries, and keeps neither key;
  \<open>required_params[n]\<close> is whether the \<open>Required\<close> value, \<open>'true'\<close> when there is
  none, is \<open>'true'\<close> in lower case; \<open>stack_param_lookups[n]\<close> is the
  \<open>LookupFromStack\<close> value when that value is true in Python's sense
  (\<open>if lookup_from_stack:\<close>), and is left as it was when the value is empty or there is
  none.
\<close>

theorem lookup_and_required_extracted:
  assumes params: "map_of (doc c) ''Parameters'' = Some (Dict ps)"
    and names: "distinct (map fst ps)"
    and wf: "list_all wf_param (map snd ps)"
    and p: "(n, Dict p) \<in> set ps"
  shows "\<exists>c' ps'. post_process_params c = Inr c' \<and>
           map_of (doc c') ''Parameters'' = Some (Dict ps') \<and>
           map_of ps' n = Some (Dict (dict_del ''Required'' (dict_del ''LookupFromStack'' p))) \<and>
           ''LookupFromStack'' \<notin> fst ` set (cleaned p) \<and> ''Required'' \<notin> fst ` set (cleaned p) \<and>
           map_of (stack_param_lookups c') n =
             (case map_of p ''LookupFromStack'' of
                None \<Rightarrow> map_of (stack_param_lookups c) n
              | Some v \<Rightarrow> if truthy v then Some v else map_of (stack_param_lookups c) n) \<and>
           map_of (required_params c') n =
             Some (lower (case map_of p ''Required'' of None \<Rightarrow> ''true'' | Some v \<Rightarrow> str_of v) = ''true'')"
proof -
  have t: "\<not> truthy NoneV" by simp
  show ?thesis
    using fold_lookup_at [OF names p, of "stack_param_lookups c"]
      fold_required_at [OF names p, of "required_params c"] clean_param_at [OF names p] t
    by (auto simp: post_process_params_def params post_process_loop_eq [OF wf] map_of_dict_set
        cleaned_def keys_dict_del lookup_of_def required_of_def split: option.splits)
qed

theorem lookup_and_required_extracted_witness:
  "\<exists>c' ps'. post_process_params
        (new_compiler False\<lparr>doc := [(''Parameters'',
           Dict [(''VpcId'', Dict [(''Type'', Str ''String''),
                    (''LookupFromStack'', Dict [(''Stack'', Str ''vpc''), (''OutputKey'', Str ''VpcId'')]),
                    (''Required'', Str ''False'')])])]\<rparr>) = Inr c' \<and>
      map_of (doc c') ''Parameters'' = Some (Dict ps') \<and>
      map_of ps' ''VpcId'' = Some (Dict [(''Type'', Str ''String'')]) \<and>
      map_of (stack_param_lookups c') ''VpcId'' =
        Some (Dict [(''Stack'', Str ''vpc''), (''OutputKey'', Str ''VpcId'')]) \<and>
      map_of (required_params c') ''VpcId'' = Some False"
  using lookup_and_required_extracted
    [of "new_compiler False\<lparr>doc := [(''Parameters'',
           Dict [(''VpcId'', Dict [(''Type'', Str ''String''),
                    (''LookupFromStack'', Dict [(''Stack'', Str ''vpc''), (''OutputKey'', Str ''VpcId'')]),
                    (''Required'', Str ''False'')])])]\<rparr>"
        "[(''VpcId'', Dict [(''Type'', Str ''String''),
                    (''LookupFromStack'', Dict [(''Stack'', Str ''vpc''), (''OutputKey'', Str ''VpcId'')]),
                    (''Required'', Str ''False'')])]"
        "''VpcId''"
        "[(''Type'', Str ''String''),
          (''LookupFromStack'', Dict [(''Stack'', Str ''vpc''), (''OutputKey'', Str ''VpcId'')]),
          (''Required'', Str ''False'')]"]
  by (simp add: new_compiler_def required_of_def dict_del_def cleaned_def lower_False)

text \<open>
  A \<open>LookupFromStack\<close> that is empty is removed from the parameter and recorded nowhere.
\<close>

theorem falsy_lookup_not_recorded:
  "post_process_params
     (new_compiler False\<lparr>doc := [(''Parameters'',
        Dict [(''VpcId'', Dict [(''Type'', Str ''String''), (''LookupFromStack'', Dict [])])])]\<rparr>)
   = Inr (new_compiler False
           \<lparr>doc := [(''Parameters'', Dict [(''VpcId'', Dict [(''Type'', Str ''String'')])])],
            stack_param_lookups := [],
            required_params := [(''VpcId'', True)]\<rparr>)"
  by (simp add: post_process_params_def post_process_param_def dict_pop_def dict_del_def
      new_compiler_def lower_true)

section \<open>Outputs for the images\<close>

text \<open>The three keys of a resource, and of two resources, differ.\<close>

definition suffixes :: "string set" where
  "suffixes = {''PreviousAMI'', ''InstanceID'', ''AMINameFormat''}"

lemma key_of_inj:
  assumes "key_of n s = key_of n' s'" "s \<in> suffixes" "s' \<in> suffixes"
  shows "n = n' \<and> s = s'"
proof -
  from assms(1) have e: "n @ s = n' @ s'" by (simp add: key_of_def)
  have l: "last (n @ s) = last (n' @ s')" using e by simp
  from assms(2,3) l have s: "s = s'" by (auto simp: suffixes_def)
  with e show ?thesis by simp
qed

definition out_step :: "ami_info \<Rightarrow> (string \<times> value) list \<Rightarrow> (string \<times> value) list" where
  "out_step m outputs = fst (add_ami_outputs m (outputs, []))"

definition rec_of :: "ami_info \<Rightarrow> ami_output" where
  "rec_of m = \<lparr>resource_name = ai_resource_name m,
              previous_ami_key = key_of (ai_resource_name m) ''PreviousAMI'',
              instance_id_key = key_of (ai_resource_name m) ''InstanceID'',
              name_format_key = key_of (ai_resource_name m) ''AMINameFormat''\<rparr>"

lemma add_ami_outputs_eq: "add_ami_outputs m (outputs, recorded) = (out_step m outputs, recorded @ [rec_of m])"
  by (simp add: add_ami_outputs_def out_step_def rec_of_def Let_def)

lemma fold_add_ami_outputs:
  "fold add_ami_outputs ms (outputs, recorded) = (fold out_step ms outputs, recorded @ map rec_of ms)"
  by (induction ms arbitrary: outputs recorded) (simp_all add: add_ami_outputs_eq)

lemma map_of_out_step:
  "map_of (out_step m outputs) k =
     (if k = key_of (ai_resource_name m) ''PreviousAMI'' \<and> ai_previous_ami m \<noteq> None
      then Some (output_entry (''Previous AMI ID created for '' @ ai_resource_name m)
                   (the (ai_previous_ami m)))
      else if k = key_of (ai_resource_name m) ''AMINameFormat''
      then Some (output_entry (''Name format for the AMI for '' @ ai_resource_name m)
                   (ai_name_format m))
      else if k = key_of (ai_resource_name m) ''InstanceID''
      then Some (output_entry (''Instance ID for '' @ ai_resource_name m)
                   (Dict [(''Ref'', Str (ai_resource_name m))]))
      else map_of outputs k)"
  by (auto simp: out_step_def add_ami_outputs_def Let_def map_of_dict_set key_of_def
      split: option.splits)

lemma distinct_out_step: "distinct (map fst outputs) \<Longrightarrow> distinct (map fst (out_step m outputs))"
  by (simp add: out_step_def add_ami_outputs_def Let_def distinct_dict_set split: option.splits)

lemma distinct_fold_out_step:
  "distinct (map fst outputs) \<Longrightarrow> distinct (map fst (fold out_step ms outputs))"
  by (induction ms arbitrary: outputs) (simp_all add: distinct_out_step)

lemma fold_out_step_other:
  "\<forall>m \<in> set ms. \<forall>s \<in> suffixes. k \<noteq> key_of (ai_resource_name m) s \<Longrightarrow>
   map_of (fold out_step ms outputs) k = map_of outputs k"
  by (induction ms arbitrary: outputs) (auto simp: map_of_out_step suffixes_def)

lemma out_step_other:
  "ai_resource_name a \<noteq> n \<Longrightarrow> s \<in> suffixes \<Longrightarrow>
   map_of (out_step a outputs) (key_of n s) = map_of outputs (key_of n s)"
  using key_of_inj [of n s "ai_resource_name a"]
  by (auto simp: map_of_out_step suffixes_def)

lemma out_step_cong:
  "map_of o1 k = map_of o2 k \<Longrightarrow> map_of (out_step m o1) k = map_of (out_step m o2) k"
  by (simp only: map_of_out_step)

lemma fold_out_step_at:
  assumes "distinct (map ai_resource_name ms)" "m \<in> set ms" "s \<in> suffixes"
  shows "map_of (fold out_step ms outputs) (key_of (ai_resource_name m) s) =
           map_of (out_step m outputs) (key_of (ai_resource_name m) s)"
  using assms(1,2)
proof (induction ms arbitrary: outputs)
  case Nil then show ?case by simp
next
  case (Cons a ms)
  show ?case
  proof (cases "a = m")
    case True
    with Cons.prems have nm: "ai_resource_name m \<notin> ai_resource_name ` set ms" by simp
    have "map_of (fold out_step ms (out_step m outputs)) (key_of (ai_resource_name m) s) =
            map_of (out_step m outputs) (key_of (ai_resource_name m) s)"
    proof (rule fold_out_step_other, intro ballI)
      fix m' s' assume m': "m' \<in> set ms" and s': "s' \<in> suffixes"
      from nm m' have "ai_resource_name m \<noteq> ai_resource_name m'" by (metis imageI)
      with key_of_inj [OF _ assms(3) s', of "ai_resource_name m" "ai_resource_name m'"]
      show "key_of (ai_resource_name m) s \<noteq> key_of (ai_resource_name m') s'" by blast
    qed
    with True show ?thesis by simp
  next
    case False
    with Cons.prems have m: "m \<in> set ms" and d: "distinct (map ai_resource_name ms)"
      and a: "ai_resource_name a \<noteq> ai_resource_name m" by auto
    have "map_of (fold out_step (a # ms) outputs) (key_of (ai_resource_name m) s) =
            map_of (out_step m (out_step a outputs)) (key_of (ai_resource_name m) s)"
      using Cons.IH [OF d m] by simp
    also have "\<dots> = map_of (out_step m outputs) (key_of (ai_resource_name m) s)"
      by (rule out_step_cong) (rule out_step_other [OF a assms(3)])
    finally show ?thesis .
  qed
qed

text \<open>The resources that the scan reads without an error.\<close>

fun wf_resource :: "value \<Rightarrow> bool" where
  "wf_resource (Dict r) =
     (case map_of r ''Metadata'' of
        None \<Rightarrow> True
      | Some (Dict m) \<Rightarrow>
          (case map_of m ''CloudPuff'' of None \<Rightarrow> True | Some (Dict md) \<Rightarrow> True | Some _ \<Rightarrow> False)
      | Some _ \<Rightarrow> False)"
| "wf_resource _ = True"

definition ami_of :: "string \<Rightarrow> value \<Rightarrow> ami_info option" where
  "ami_of n v = (case scan_resource n v of Inr found \<Rightarrow> found | Inl e \<Rightarrow> None)"

fun infos_of :: "(string \<times> value) list \<Rightarrow> ami_info list" where
  "infos_of [] = []"
| "infos_of ((n, v) # rest) =
     (case ami_of n v of None \<Rightarrow> infos_of rest | Some i \<Rightarrow> i # infos_of rest)"

lemma py_in_dict: "py_in k (Dict d) = Inr (map_of d k \<noteq> None)"
  by (simp add: py_in_def map_of_eq_None_iff)

lemma scan_resource_wf:
  assumes "wf_resource v"
  shows "scan_resource n v = Inr (ami_of n v)"
proof (cases v)
  case (Dict r)
  show ?thesis
  proof (cases "map_of r ''Metadata''")
    case None
    then show ?thesis by (simp add: Dict ami_of_def scan_resource_def py_in_dict)
  next
    case md: (Some x)
    with assms Dict obtain m where x: "x = Dict m" by (cases x) auto
    show ?thesis
    proof (cases "map_of m ''CloudPuff''")
      case None
      then show ?thesis by (simp add: Dict md x ami_of_def scan_resource_def py_in_dict)
    next
      case (Some y)
      with assms Dict md x obtain d where y: "y = Dict d" by (cases y) auto
      show ?thesis
        by (cases "map_of d ''AMINameFormat''"; cases "map_of d ''PreviousAMI''")
           (simp_all add: Dict md x Some y ami_of_def scan_resource_def py_in_dict py_item_def)
    qed
  qed
qed (simp_all add: ami_of_def scan_resource_def)

lemma scan_resource_name: "scan_resource n v = Inr (Some i) \<Longrightarrow> ai_resource_name i = n"
  by (cases v) (auto simp: scan_resource_def Let_def split: if_splits sum.splits bool.splits)

lemma ami_of_name: "ami_of n v = Some i \<Longrightarrow> ai_resource_name i = n"
  by (auto simp: ami_of_def scan_resource_name split: sum.splits)

lemma scan_resource_qualifying:
  assumes "map_of r ''Type'' = Some (Str ''AWS::EC2::Instance'')"
    "map_of r ''Metadata'' = Some (Dict m)" "map_of m ''CloudPuff'' = Some (Dict md)"
    "map_of md ''AMINameFormat'' = Some nf"
  shows "ami_of n (Dict r) =
           Some \<lparr>ai_name_format = nf, ai_resource_name = n,
                 ai_previous_ami = map_of md ''PreviousAMI''\<rparr>"
  using assms
  by (auto simp: ami_of_def scan_resource_def py_in_dict py_item_def Let_def split: option.splits)

lemma scan_resources_wf:
  "list_all wf_resource (map snd rs) \<Longrightarrow> scan_resources rs = Inr (infos_of rs)"
proof (induction rs)
  case Nil show ?case by simp
next
  case (Cons a rs)
  obtain n v where a: "a = (n, v)" by (cases a)
  from Cons.prems have "wf_resource v" "list_all wf_resource (map snd rs)" by (auto simp: a)
  then show ?case by (simp add: a scan_resource_wf Cons.IH)
qed

lemma infos_of_names: "i \<in> set (infos_of rs) \<Longrightarrow> ai_resource_name i \<in> fst ` set rs"
proof (induction rs)
  case Nil then show ?case by simp
next
  case (Cons a rs)
  then show ?case by (cases a) (auto simp: image_iff dest: ami_of_name split: option.splits)
qed

lemma infos_of_distinct:
  "distinct (map fst rs) \<Longrightarrow> distinct (map ai_resource_name (infos_of rs))"
proof (induction rs)
  case Nil then show ?case by simp
next
  case (Cons a rs)
  then show ?case
    by (cases a) (auto split: option.splits, metis ami_of_name infos_of_names)
qed

lemma infos_of_member: "(n, v) \<in> set rs \<Longrightarrow> ami_of n v = Some i \<Longrightarrow> i \<in> set (infos_of rs)"
proof (induction rs)
  case Nil then show ?case by simp
next
  case (Cons a rs)
  then show ?case by (cases a) (auto split: option.splits)
qed

definition web_instance :: "value" where
  "web_instance =
     Dict [(''Type'', Str ''AWS::EC2::Instance''),
           (''Metadata'',
            Dict [(''CloudPuff'',
                   Dict [(''AMINameFormat'', Str ''web-{date}''),
                         (''PreviousAMI'', Str ''ami-1'')])])]"

definition web_compiler :: "bool \<Rightarrow> compiler" where
  "web_compiler fa =
     new_compiler fa\<lparr>doc := [(''Resources'', Dict [(''Web'', web_instance)]),
                              (''Outputs'', Dict [])]\<rparr>"

text \<open>
  C8, as the code has it. For every resource \<open>n\<close> of type \<open>AWS::EC2::Instance\<close> whose
  \<open>CloudPuff\<close> metadata has an \<open>AMINameFormat\<close>: with \<open>for_amis\<close> the scan puts
  the Outputs \<open>CloudPuff<n>InstanceID\<close> and \<open>CloudPuff<n>AMINameFormat\<close>, puts the
  Output \<open>CloudPuff<n>PreviousAMI\<close> when the metadata has a \<open>PreviousAMI\<close> and leaves
  that key of the Outputs as it was when it has none, and records the three key names in
  \<open>ami_outputs\<close>. Without \<open>for_amis\<close> the compiler is left as it was.
\<close>

theorem ami_outputs_synthesized:
  assumes resources: "map_of (doc c) ''Resources'' = Some (Dict rs)"
    and names: "distinct (map fst rs)"
    and wf: "list_all wf_resource (map snd rs)"
    and outs: "map_of (doc c) ''Outputs'' = Some (Dict os)"
    and r: "(n, Dict r) \<in> set rs" "map_of r ''Type'' = Some (Str ''AWS::EC2::Instance'')"
      "map_of r ''Metadata'' = Some (Dict m)" "map_of m ''CloudPuff'' = Some (Dict md)"
      "map_of md ''AMINameFormat'' = Some nf"
  shows "(for_amis c \<longrightarrow>
           (\<exists>c' os'. scan_cloudpuff_metadata c = Inr c' \<and>
              map_of (doc c') ''Outputs'' = Some (Dict os') \<and>
              map_of os' (key_of n ''InstanceID'') =
                Some (output_entry (''Instance ID for '' @ n) (Dict [(''Ref'', Str n)])) \<and>
              map_of os' (key_of n ''AMINameFormat'') =
                Some (output_entry (''Name format for the AMI for '' @ n) nf) \<and>
              map_of os' (key_of n ''PreviousAMI'') =
                (case map_of md ''PreviousAMI'' of
                   Some prev \<Rightarrow> Some (output_entry (''Previous AMI ID created for '' @ n) prev)
                 | None \<Rightarrow> map_of os (key_of n ''PreviousAMI'')) \<and>
              \<lparr>resource_name = n, previous_ami_key = key_of n ''PreviousAMI'',
               instance_id_key = key_of n ''InstanceID'',
               name_format_key = key_of n ''AMINameFormat''\<rparr> \<in> set (ami_outputs c'))) \<and>
         (\<not> for_amis c \<longrightarrow> scan_cloudpuff_metadata c = Inr c)"
proof -
  define i where "i = \<lparr>ai_name_format = nf, ai_resource_name = n,
                       ai_previous_ami = map_of md ''PreviousAMI''\<rparr>"
  have scan: "scan_resources rs = Inr (infos_of rs)" by (rule scan_resources_wf [OF wf])
  have i: "i \<in> set (infos_of rs)"
    unfolding i_def by (rule infos_of_member [OF r(1) scan_resource_qualifying [OF r(2-5)]])
  have n: "ai_resource_name i = n" by (simp add: i_def)
  have d: "distinct (map ai_resource_name (infos_of rs))" by (rule infos_of_distinct [OF names])
  define new where "new = fold out_step (infos_of rs) []"
  have dn: "distinct (map fst new)" unfolding new_def by (rule distinct_fold_out_step) simp
  have at: "map_of new (key_of n s) = map_of (out_step i []) (key_of n s)" if "s \<in> suffixes" for s
    using fold_out_step_at [OF d i that, of "[]"] by (simp add: new_def n)
  have k: "key_of n ''PreviousAMI'' \<noteq> key_of n ''AMINameFormat''"
    "key_of n ''InstanceID'' \<noteq> key_of n ''AMINameFormat''"
    "key_of n ''InstanceID'' \<noteq> key_of n ''PreviousAMI''"
    by (simp_all add: key_of_def)
  have a1: "map_of new (key_of n ''InstanceID'') =
              Some (output_entry (''Instance ID for '' @ n) (Dict [(''Ref'', Str n)]))"
    using at [of "''InstanceID''"] k by (simp add: suffixes_def map_of_out_step n)
  have a2: "map_of new (key_of n ''AMINameFormat'') =
              Some (output_entry (''Name format for the AMI for '' @ n) nf)"
    using at [of "''AMINameFormat''"] k by (simp add: suffixes_def map_of_out_step n) (simp add: i_def)
  have a3: "map_of new (key_of n ''PreviousAMI'') =
              (case map_of md ''PreviousAMI'' of
                 Some prev \<Rightarrow> Some (output_entry (''Previous AMI ID created for '' @ n) prev)
               | None \<Rightarrow> None)"
    using at [of "''PreviousAMI''"] k
    by (simp add: suffixes_def map_of_out_step n) (auto simp: i_def split: option.splits)
  have ne: "infos_of rs \<noteq> []" using i by auto
  have rec: "rec_of i = \<lparr>resource_name = n, previous_ami_key = key_of n ''PreviousAMI'',
               instance_id_key = key_of n ''InstanceID'',
               name_format_key = key_of n ''AMINameFormat''\<rparr>"
    by (simp add: rec_of_def n)
  have mem: "rec_of i \<in> set (ami_outputs c @ map rec_of (infos_of rs))" using i by simp
  show ?thesis
    using mem
    by (auto simp: scan_cloudpuff_metadata_def resources scan ne outs fold_add_ami_outputs
        new_def [symmetric] map_of_dict_set dict_update_at [OF dn] a1 a2 a3 rec
        split: option.splits)
qed

theorem ami_outputs_synthesized_witness:
  "(\<exists>c' os'. scan_cloudpuff_metadata (web_compiler True) = Inr c' \<and>
      map_of (doc c') ''Outputs'' = Some (Dict os') \<and>
      map_of os' ''CloudPuffWebInstanceID'' =
        Some (Dict [(''Description'', Str ''Instance ID for Web''),
                    (''Value'', Dict [(''Ref'', Str ''Web'')])]) \<and>
      map_of os' ''CloudPuffWebAMINameFormat'' =
        Some (Dict [(''Description'', Str ''Name format for the AMI for Web''),
                    (''Value'', Str ''web-{date}'')]) \<and>
      map_of os' ''CloudPuffWebPreviousAMI'' =
        Some (Dict [(''Description'', Str ''Previous AMI ID created for Web''),
                    (''Value'', Str ''ami-1'')]) \<and>
      \<lparr>resource_name = ''Web'', previous_ami_key = ''CloudPuffWebPreviousAMI'',
       instance_id_key = ''CloudPuffWebInstanceID'',
       name_format_key = ''CloudPuffWebAMINameFormat''\<rparr> \<in> set (ami_outputs c')) \<and>
   scan_cloudpuff_metadata (web_compiler False) = Inr (web_compiler False)"
proof -
  note th = ami_outputs_synthesized
    [where rs = "[(''Web'', web_instance)]" and os = "[]" and n = "''Web''"
       and r = "[(''Type'', Str ''AWS::EC2::Instance''),
                 (''Metadata'',
                  Dict [(''CloudPuff'',
                         Dict [(''AMINameFormat'', Str ''web-{date}''),
                               (''PreviousAMI'', Str ''ami-1'')])])]"
       and m = "[(''CloudPuff'',
                  Dict [(''AMINameFormat'', Str ''web-{date}''),
                        (''PreviousAMI'', Str ''ami-1'')])]"
       and md = "[(''AMINameFormat'', Str ''web-{date}''), (''PreviousAMI'', Str ''ami-1'')]"
       and nf = "Str ''web-{date}''"]
  from th [of "web_compiler True"] th [of "web_compiler False"] show ?thesis
    by (simp add: web_compiler_def web_instance_def new_compiler_def key_of_def output_entry_def)
qed

text \<open>
  A resource whose metadata has an \<open>AMINameFormat\<close> and no \<open>PreviousAMI\<close> gets two
  Outputs; \<open>ami_outputs\<close> names a third, \<open>CloudPuffWebPreviousAMI\<close>, which is not
  there.
\<close>

theorem name_format_without_previous_ami:
  "scan_cloudpuff_metadata
     (new_compiler True\<lparr>doc := [(''Resources'',
        Dict [(''Web'', Dict [(''Type'', Str ''AWS::EC2::Instance''),
                (''Metadata'', Dict [(''CloudPuff'', Dict [(''AMINameFormat'', Str ''web'')])])])]),
        (''Outputs'', Dict [])]\<rparr>)
   = Inr (new_compiler True
           \<lparr>doc := [(''Resources'',
              Dict [(''Web'', Dict [(''Type'', Str ''AWS::EC2::Instance''),
                (''Metadata'', Dict [(''CloudPuff'', Dict [(''AMINameFormat'', Str ''web'')])])])]),
              (''Outputs'',
               Dict [(''CloudPuffWebInstanceID'',
                      Dict [(''Description'', Str ''Instance ID for Web''),
                            (''Value'', Dict [(''Ref'', Str ''Web'')])]),
                     (''CloudPuffWebAMINameFormat'',
                      Dict [(''Description'', Str ''Name format for the AMI for Web''),
                            (''Value'', Str ''web'')])])],
            ami_outputs := [\<lparr>resource_name = ''Web'',
                             previous_ami_key = ''CloudPuffWebPreviousAMI'',
                             instance_id_key = ''CloudPuffWebInstanceID'',
                             name_format_key = ''CloudPuffWebAMINameFormat''\<rparr>]\<rparr>)"
  by (simp add: scan_cloudpuff_metadata_def scan_resource_def py_in_def py_item_def
      add_ami_outputs_def key_of_def output_entry_def dict_update_def new_compiler_def Let_def)

section \<open>The five sections\<close>

text \<open>
  A parameter that carries no directive of the compiler: a mapping with neither
  \<open>LookupFromStack\<close> nor \<open>Required\<close>.
\<close>

fun plain_param :: "value \<Rightarrow> bool" where
  "plain_param (Dict p) = (map_of p ''LookupFromStack'' = None \<and> map_of p ''Required'' = None)"
| "plain_param _ = False"

lemma plain_param_wf: "plain_param v \<Longrightarrow> wf_param v"
  by (cases v) (simp_all add: required_of_def)

lemma plain_params_wf: "list_all plain_param vs \<Longrightarrow> list_all wf_param vs"
  by (induction vs) (simp_all add: plain_param_wf)

lemma plain_param_clean: "plain_param v \<Longrightarrow> clean_param (n, v) = (n, v)"
  by (cases v) (simp_all add: cleaned_def dict_del_absent)

lemma plain_params_clean: "list_all plain_param (map snd ps) \<Longrightarrow> map clean_param ps = ps"
proof (induction ps)
  case Nil show ?case by simp
next
  case (Cons a ps)
  then show ?case by (cases a) (simp add: plain_param_clean)
qed

lemma plain_param_lookup: "plain_param v \<Longrightarrow> lookup_step (n, v) L = L"
  by (cases v) (simp_all add: lookup_of_def)

lemma plain_params_lookup: "list_all plain_param (map snd ps) \<Longrightarrow> fold lookup_step ps L = L"
proof (induction ps arbitrary: L)
  case Nil show ?case by simp
next
  case (Cons a ps)
  then show ?case by (cases a) (simp add: plain_param_lookup)
qed

lemma post_process_params_plain:
  assumes "map_of (doc c) ''Parameters'' = Some (Dict ps)" "list_all plain_param (map snd ps)"
  shows "post_process_params c =
           Inr (c\<lparr>required_params := fold required_step ps (required_params c)\<rparr>)"
  using assms
  by (simp add: post_process_params_def post_process_loop_eq [OF plain_params_wf]
      plain_params_clean plain_params_lookup dict_set_same)

lemma scan_cloudpuff_metadata_idle:
  assumes "map_of (doc c) ''Resources'' = Some (Dict rs)" "list_all wf_resource (map snd rs)"
    "infos_of rs = [] \<or> \<not> for_amis c"
  shows "scan_cloudpuff_metadata c = Inr c"
  using assms by (auto simp: scan_cloudpuff_metadata_def scan_resources_wf)

lemma drop_empty_filter:
  "distinct ss \<Longrightarrow> distinct (map fst d) \<Longrightarrow> set ss \<subseteq> fst ` set d \<Longrightarrow>
   drop_empty ss d = Inr (filter (\<lambda>(k, v). k \<in> set ss \<longrightarrow> truthy v) d)"
proof (induction ss arbitrary: d)
  case Nil
  show ?case by simp
next
  case (Cons s ss)
  from Cons.prems obtain v where v: "map_of d s = Some v"
    by (cases "map_of d s") (auto simp: map_of_eq_None_iff)
  have only: "v' = v" if "(s, v') \<in> set d" for v'
    using Cons.prems(2) that v by simp
  from Cons.prems have ss: "distinct ss" "s \<notin> set ss" "set ss \<subseteq> fst ` set d" by auto
  show ?case
  proof (cases "truthy v")
    case True
    have "filter (\<lambda>(k, v). k \<in> set ss \<longrightarrow> truthy v) d =
            filter (\<lambda>(k, v). k \<in> set (s # ss) \<longrightarrow> truthy v) d"
      by (rule filter_cong) (use True only in auto)
    with Cons.IH [OF ss(1) Cons.prems(2) ss(3)] True v show ?thesis by simp
  next
    case False
    have d': "distinct (map fst (dict_del s d))"
      using Cons.prems(2) by (simp add: dict_del_def distinct_map_filter)
    have k: "set ss \<subseteq> fst ` set (dict_del s d)"
      using ss by (auto simp: keys_dict_del)
    have "filter (\<lambda>(k, v). k \<in> set ss \<longrightarrow> truthy v) (dict_del s d) =
            filter (\<lambda>(k, v). k \<in> set (s # ss) \<longrightarrow> truthy v) d"
      unfolding dict_del_def filter_filter
      by (rule filter_cong) (use False only in auto)
    with Cons.IH [OF ss(1) d' k] False v show ?thesis by simp
  qed
qed

lemma copy_sections:
  assumes "set SECTIONS \<inter> fst ` set d1 = {}"
  shows "fold (\<lambda>section. dict_set section (f section)) SECTIONS d1 =
           d1 @ [(''Parameters'', f ''Parameters''), (''Mappings'', f ''Mappings''),
                 (''Conditions'', f ''Conditions''), (''Resources'', f ''Resources''),
                 (''Outputs'', f ''Outputs'')]"
proof -
  from assms have k: "''Parameters'' \<notin> fst ` set d1" "''Mappings'' \<notin> fst ` set d1"
    "''Conditions'' \<notin> fst ` set d1" "''Resources'' \<notin> fst ` set d1"
    "''Outputs'' \<notin> fst ` set d1"
    by (auto simp: SECTIONS_def)
  have "dict_set k v d1 = d1 @ [(k, v)]" if "k \<notin> fst ` set d1" for k v
    using dict_set_append_absent [OF that, of v "[]"] by simp
  with k show ?thesis
    by (simp add: SECTIONS_def dict_set_append_absent)
qed

definition header :: "meta \<Rightarrow> (string \<times> value) list" where
  "header m =
     (''AWSTemplateFormatVersion'', Str ''2010-09-09'') #
     (case m_description m of
        None \<Rightarrow> []
      | Some description \<Rightarrow>
          [(''Description'',
            Str (case m_version m of
                   None \<Rightarrow> description
                 | Some v \<Rightarrow> description @ '' [v'' @ v @ '']''))])"

lemma header_keys: "set SECTIONS \<inter> fst ` set (header m) = {}"
  by (cases "m_description m") (simp_all add: header_def SECTIONS_def)

text \<open>
  The round trip. When \<open>process_tree\<close> finds nothing to do in the Conditions and the
  Resources, every parameter is such a mapping, and no output for an image is made, the
  compiled document is the format version, the description of the \<open>Meta\<close> section with
  its version, and the five sections as the reader has them, without those that are empty
  or missing.
\<close>

lemma sections_round_trip:
  assumes meta: "r_meta r = Some m"
    and plain: "r_process_trees r (section_of r ''Conditions'') (section_of r ''Resources'') =
                  (section_of r ''Conditions'', section_of r ''Resources'', [])"
    and params: "section_of r ''Parameters'' = Dict ps" "list_all plain_param (map snd ps)"
    and resources: "section_of r ''Resources'' = Dict rs" "list_all wf_resource (map snd rs)"
    and amis: "infos_of rs = [] \<or> \<not> for_amis c"
  shows "\<exists>c'. load_string r stack_name c = Inr c' \<and>
           doc c' =
             (''AWSTemplateFormatVersion'', Str ''2010-09-09'') #
             (case m_description m of
                None \<Rightarrow> []
              | Some description \<Rightarrow>
                  [(''Description'',
                    Str (case m_version m of
                           None \<Rightarrow> description
                         | Some v \<Rightarrow> description @ '' [v'' @ v @ '']''))]) @
             filter (\<lambda>(section, v). truthy v)
               (map (\<lambda>section. (section, section_of r section)) SECTIONS)"
proof -
  define d2 where
    "d2 = header m @ [(''Parameters'', Dict ps), (''Mappings'', section_of r ''Mappings''),
             (''Conditions'', section_of r ''Conditions''), (''Resources'', Dict rs),
             (''Outputs'', section_of r ''Outputs'')]"
  define c0 where
    "c0 = c\<lparr>doc := d2,
            cmeta := Some (m\<lparr>m_name := (case m_name m of None \<Rightarrow> stack_name | Some n \<Rightarrow> Some n)\<rparr>)\<rparr>"
  define c1 where "c1 = c0\<lparr>required_params := fold required_step ps (required_params c0)\<rparr>"
  have k: "''Parameters'' \<notin> fst ` set (header m)" "''Conditions'' \<notin> fst ` set (header m)"
    "''Resources'' \<notin> fst ` set (header m)"
    using header_keys [of m] by (auto simp: SECTIONS_def)
  have d1: "(case m_description m of
               None \<Rightarrow> [(''AWSTemplateFormatVersion'', Str ''2010-09-09'')]
             | Some description \<Rightarrow>
                 dict_set ''Description''
                   (Str (case m_version m of
                           None \<Rightarrow> description
                         | Some v \<Rightarrow> description @ '' [v'' @ v @ '']''))
                   [(''AWSTemplateFormatVersion'', Str ''2010-09-09'')]) = header m"
    by (simp add: header_def split: option.splits)
  have copy: "fold (\<lambda>section. dict_set section (section_of r section)) SECTIONS (header m) = d2"
    by (simp add: copy_sections [OF header_keys] d2_def params resources)
  have same: "dict_set ''Resources'' (section_of r ''Resources'')
                (dict_set ''Conditions'' (section_of r ''Conditions'') d2) = d2"
    by (simp add: d2_def resources dict_set_append_absent k)
  have p: "map_of (doc c0) ''Parameters'' = Some (Dict ps)"
    by (simp add: c0_def d2_def map_of_append_absent k del: map_of_append)
  have rs: "map_of (doc c1) ''Resources'' = Some (Dict rs)"
    by (simp add: c1_def c0_def d2_def map_of_append_absent k del: map_of_append)
  have post: "post_process_params c0 = Inr c1"
    unfolding c1_def by (rule post_process_params_plain [OF p params(2)])
  have scan: "scan_cloudpuff_metadata c1 = Inr c1"
    by (rule scan_cloudpuff_metadata_idle [OF rs resources(2)]) (use amis in \<open>simp add: c1_def c0_def\<close>)
  have keep: "filter (\<lambda>(k, v). k \<in> set SECTIONS \<longrightarrow> truthy v) (header m) = header m"
    using header_keys [of m] by (intro filter_True) force
  have dd: "distinct (map fst d2)"
    using k by (cases "m_description m") (simp_all add: d2_def header_def)
  have sub: "set SECTIONS \<subseteq> fst ` set d2"
    by (simp add: d2_def SECTIONS_def)
  have drop: "drop_empty SECTIONS (doc c1) =
                Inr (header m @ filter (\<lambda>(section, v). truthy v)
                       (map (\<lambda>section. (section, section_of r section)) SECTIONS))"
    using drop_empty_filter [OF _ dd sub]
    by (simp add: c1_def c0_def) (simp add: d2_def keep, simp add: SECTIONS_def params resources)
  have "load_string r stack_name c =
          Inr (c1\<lparr>doc := header m @ filter (\<lambda>(section, v). truthy v)
                       (map (\<lambda>section. (section, section_of r section)) SECTIONS)\<rparr>)"
    unfolding load_string_def
    by (simp add: meta d1 copy plain same c0_def [symmetric] post scan drop Let_def)
  then show ?thesis by (simp add: header_def)
qed

lemma sections_round_trip_example:
  "\<exists>c'. load_string
          \<lparr>r_meta = Some \<lparr>m_name = None, m_description = Some ''My description.'',
                          m_version = Some ''1.0''\<rparr>,
           r_doc = [(''Parameters'', Dict [(''key'', Dict [(''Type'', Str ''String'')])]),
                    (''Mappings'', Dict [(''key'', Str ''value'')]),
                    (''Conditions'', Dict [(''key'', Str ''value'')]),
                    (''Resources'', Dict [(''key'', Str ''value'')]),
                    (''junk'', Str ''blah'')],
           r_process_trees = (\<lambda>conditions resources. (conditions, resources, []))\<rparr>
          None (new_compiler False) = Inr c' \<and>
        doc c' = [(''AWSTemplateFormatVersion'', Str ''2010-09-09''),
                  (''Description'', Str ''My description. [v1.0]''),
                  (''Parameters'', Dict [(''key'', Dict [(''Type'', Str ''String'')])]),
                  (''Mappings'', Dict [(''key'', Str ''value'')]),
                  (''Conditions'', Dict [(''key'', Str ''value'')]),
                  (''Resources'', Dict [(''key'', Str ''value'')])]"
  using sections_round_trip
    [of "\<lparr>r_meta = Some \<lparr>m_name = None, m_description = Some ''My description.'',
                          m_version = Some ''1.0''\<rparr>,
           r_doc = [(''Parameters'', Dict [(''key'', Dict [(''Type'', Str ''String'')])]),
                    (''Mappings'', Dict [(''key'', Str ''value'')]),
                    (''Conditions'', Dict [(''key'', Str ''value'')]),
                    (''Resources'', Dict [(''key'', Str ''value'')]),
                    (''junk'', Str ''blah'')],
           r_process_trees = (\<lambda>conditions resources. (conditions, resources, []))\<rparr>"
       "\<lparr>m_name = None, m_description = Some ''My description.'', m_version = Some ''1.0''\<rparr>"
       "[(''key'', Dict [(''Type'', Str ''String'')])]"
       "[(''key'', Str ''value'')]" "new_compiler False" None]
  by (simp add: section_of_def SECTIONS_def new_compiler_def)

text \<open>
  C6. The round trip fails on the document of \<open>test_compiling\<close>, whose sections are all
  \<open>key: value\<close>. The test expects \<open>doc['Parameters'] == {'key': 'value'}\<close>;
  \<open>_post_process_params\<close> calls \<open>pop\<close> on the string \<open>'value'\<close>, and
  \<open>load_string\<close> raises \<open>AttributeError\<close>, whatever \<open>process_tree\<close> makes of the
  Conditions and the Resources.
\<close>

theorem test_compiling_raises:
  "load_string
     \<lparr>r_meta = Some \<lparr>m_name = None, m_description = Some ''My description.'',
                     m_version = Some ''1.0''\<rparr>,
      r_doc = [(''Parameters'', Dict [(''key'', Str ''value'')]),
               (''Mappings'', Dict [(''key'', Str ''value'')]),
               (''Conditions'', Dict [(''key'', Str ''value'')]),
               (''Resources'', Dict [(''key'', Str ''value'')]),
               (''Outputs'', Dict [(''key'', Str ''value'')]),
               (''junk'', Str ''blah'')],
      r_process_trees = process_trees\<rparr>
     stack_name (new_compiler fa) = Inl AttributeError"
proof -
  obtain conditions resources if_conditions where
    p: "process_trees (Dict [(''key'', Str ''value'')]) (Dict [(''key'', Str ''value'')]) =
          (conditions, resources, if_conditions)"
    by (cases "process_trees (Dict [(''key'', Str ''value'')]) (Dict [(''key'', Str ''value'')])")
  show ?thesis
    by (cases conditions; cases "if_conditions = []")
       (simp_all add: load_string_def section_of_def SECTIONS_def new_compiler_def p Let_def
          post_process_params_def post_process_param_def)
qed

end
